theory Spec2Isabelle
  imports Complex_Main "HOL-Library.Word"
begin

section \<open>Exceptions, log records and calendar dates\<close>

text \<open>
  The two programs (\<^verbatim>\<open>currency_api.py\<close>, the incremental loader, and
  \<^verbatim>\<open>currency_api_date.py\<close>, the historical loader) are sequential scripts around
  four library calls: an HTTP request, an XML parse, a database write and a file write.
  Every exception the libraries may raise is a value here. A handler
  \<^verbatim>\<open>except Exception\<close> catches the classes derived from \<^verbatim>\<open>Exception\<close>;
  \<^verbatim>\<open>KeyboardInterrupt\<close> and \<^verbatim>\<open>SystemExit\<close> derive from
  \<^verbatim>\<open>BaseException\<close> only and pass through it.
\<close>

datatype exn_class =
    OperationalError | ProgrammingError | RequestException | HTTPError
  | XMLSyntaxError | ValueError | TypeError | KeyError | AttributeError
  | IndexError | OSError | OverflowError | InvalidIndexError | OtherException
  | KeyboardInterrupt | SystemExit

text \<open>An exception instance: its class and \<^verbatim>\<open>str(e)\<close>.\<close>

datatype exn = Raise exn_class string

fun is_Exception :: "exn \<Rightarrow> bool" where
  "is_Exception (Raise c m) = (c \<noteq> KeyboardInterrupt \<and> c \<noteq> SystemExit)"

fun exn_str :: "exn \<Rightarrow> string" where
  "exn_str (Raise c m) = m"

text \<open>Sequencing of fallible steps: the first exception ends the block.\<close>

definition and_then :: "exn + 'a \<Rightarrow> ('a \<Rightarrow> exn + 'b) \<Rightarrow> exn + 'b" where
  "and_then r k = (case r of Inl e \<Rightarrow> Inl e | Inr x \<Rightarrow> k x)"

text \<open>
  A \<^verbatim>\<open>datetime.date\<close> is its proleptic Gregorian ordinal
  (\<^verbatim>\<open>date.toordinal()\<close>). The limits of the representable range
  (\<^verbatim>\<open>date.min\<close>, \<^verbatim>\<open>date.max\<close>, the bounds of \<^verbatim>\<open>pd.Timestamp\<close>)
  are not part of the model.
\<close>

type_synonym date = int

definition is_leap :: "int \<Rightarrow> bool" where
  "is_leap y = (y mod 4 = 0 \<and> (y mod 100 \<noteq> 0 \<or> y mod 400 = 0))"

definition days_before_year :: "int \<Rightarrow> int" where
  "days_before_year y = (y - 1) * 365 + (y - 1) div 4 - (y - 1) div 100 + (y - 1) div 400"

definition days_in_month :: "int \<Rightarrow> int \<Rightarrow> int" where
  "days_in_month y m =
     (if m = 2 then (if is_leap y then 29 else 28)
      else if m = 4 \<or> m = 6 \<or> m = 9 \<or> m = 11 then 30 else 31)"

definition days_before_month :: "int \<Rightarrow> int \<Rightarrow> int" where
  "days_before_month y m = sum_list (map (days_in_month y) [1..m - 1])"

text \<open>\<^verbatim>\<open>datetime(y, m, d).date()\<close> as an ordinal.\<close>

definition ymd :: "int \<Rightarrow> int \<Rightarrow> int \<Rightarrow> date" where
  "ymd y m d = days_before_year y + days_before_month y m + d"

text \<open>\<^verbatim>\<open>pd.date_range(start, end)\<close>, daily frequency, both ends included.\<close>

definition date_range :: "date \<Rightarrow> date \<Rightarrow> date list" where
  "date_range start_date end_date = [start_date..end_date]"

text \<open>
  Log records. The messages of the programs are Russian text with interpolated values;
  each message is a constructor here, carrying the interpolated values.
\<close>

datatype level = INFO | WARNING | ERROR | CRITICAL

datatype 'c msg =
    ConnOk                      \<comment> \<open>connection to PostgreSQL succeeded\<close>
  | ConnUnavailable string      \<comment> \<open>connection error, server unavailable: e\<close>
  | BadCredentials              \<comment> \<open>wrong PostgreSQL login or password\<close>
  | DbMissing                   \<comment> \<open>the database does not exist\<close>
  | SqlError string             \<comment> \<open>SQL error: e\<close>
  | UnknownError string         \<comment> \<open>unknown error: e\<close>
  | LastDateError string        \<comment> \<open>error reading the last date: e\<close>
  | FetchError string           \<comment> \<open>error fetching the bank's data: e\<close>
  | SavedPg nat                 \<comment> \<open>data saved to PostgreSQL (n records)\<close>
  | SavePgError string          \<comment> \<open>error saving to PostgreSQL: e\<close>
  | SavedCsv                    \<comment> \<open>data saved to CSV: path\<close>
  | SaveCsvError string         \<comment> \<open>error saving to CSV: e\<close>
  | NoDbUsingBackup             \<comment> \<open>could not connect to the database, using the backup file\<close>
  | NothingNew date             \<comment> \<open>no new data to load (last date: d)\<close>
  | Loading date date           \<comment> \<open>loading data from d1 to d2\<close>
  | Received date               \<comment> \<open>data received for d\<close>
  | NothingToSave               \<comment> \<open>no new data to save\<close>
  | Fatal string                \<comment> \<open>critical error: e\<close>
  | ConnError string            \<comment> \<open>historical loader: connection error: e\<close>
  | FetchErrorAt date string    \<comment> \<open>historical loader: error fetching the data for d: e\<close>
  | SavedFor nat 'c             \<comment> \<open>historical loader: saved n records for the first Date cell\<close>
  | SaveError string            \<comment> \<open>historical loader: save error: e\<close>
  | HistStart date date         \<comment> \<open>historical loader: starting the load from d1 to d2\<close>
  | SkipSave date               \<comment> \<open>historical loader: skipping d because of a save error\<close>
  | NoDataFor date              \<comment> \<open>historical loader: no data for d\<close>
  | HistDone                    \<comment> \<open>historical loader: load finished\<close>

section \<open>Data frames\<close>

text \<open>
  A cell of a \<^verbatim>\<open>DataFrame\<close>: a string, an integer, a float, a date, or the missing
  value NaN (an element absent from the document; it is also the float NaN). The type
  \<open>'f\<close> stands for the other IEEE doubles; their operations are fields of the environment
  below. An integer cell holds the integer the document gave, of any size: pandas keeps it
  as int64, as uint64 or as a Python integer. A frame is the list of its columns in order,
  each with its label. In pandas all columns of a frame have the length of its index, and
  the labels of a frame built by \<^verbatim>\<open>read_xml\<close> are distinct.
\<close>

datatype 'f cell = CStr string | CInt int | CFloat 'f | CDate date | CNaN

type_synonym 'f column = "'f cell list"
type_synonym 'f frame = "(string \<times> 'f column) list"
type_synonym 'f row = "(string \<times> 'f cell) list"

text \<open>\<^verbatim>\<open>len(df)\<close>: the length of the index.\<close>

definition nrows :: "'f frame \<Rightarrow> nat" where
  "nrows df = (case df of [] \<Rightarrow> 0 | (l, cs) # rest \<Rightarrow> length cs)"

text \<open>\<^verbatim>\<open>df.empty\<close>: some axis has length 0. \<^verbatim>\<open>pd.DataFrame()\<close> is \<open>[]\<close>.\<close>

definition empty_frame :: "'f frame \<Rightarrow> bool" where
  "empty_frame df = (df = [] \<or> nrows df = 0)"

text \<open>\<^verbatim>\<open>df[label]\<close> raises \<^verbatim>\<open>KeyError\<close> when there is no such column.\<close>

definition get_col :: "string \<Rightarrow> 'f frame \<Rightarrow> exn + 'f column" where
  "get_col l df = (case map_of df l of None \<Rightarrow> Inl (Raise KeyError l) | Some cs \<Rightarrow> Inr cs)"

text \<open>\<^verbatim>\<open>df[label] = column\<close>: replaces the column in place, or adds it last.\<close>

definition set_col :: "string \<Rightarrow> 'f column \<Rightarrow> 'f frame \<Rightarrow> 'f frame" where
  "set_col l cs df =
     (if l \<in> set (map fst df) then map (\<lambda>(k, old). if k = l then (k, cs) else (k, old)) df
      else df @ [(l, cs)])"

text \<open>\<^verbatim>\<open>df.rename(columns={'CharCode': 'CurrencyCode', 'Name': 'CurrencyName'})\<close>\<close>

definition rename_label :: "string \<Rightarrow> string" where
  "rename_label l =
     (if l = ''CharCode'' then ''CurrencyCode''
      else if l = ''Name'' then ''CurrencyName'' else l)"

definition rename_columns :: "'f frame \<Rightarrow> 'f frame" where
  "rename_columns df = map (\<lambda>(l, cs). (rename_label l, cs)) df"

text \<open>
  \<^verbatim>\<open>df[[l1, ..., ln]]\<close>: for each requested label in turn, every column that carries
  it; \<^verbatim>\<open>KeyError\<close> when a label is carried by none.
\<close>

fun select_columns :: "string list \<Rightarrow> 'f frame \<Rightarrow> exn + 'f frame" where
  "select_columns [] df = Inr []"
| "select_columns (l # ls) df =
     (case filter (\<lambda>(k, cs). k = l) df of
        [] \<Rightarrow> Inl (Raise KeyError l)
      | hit # hits \<Rightarrow> and_then (select_columns ls df) (\<lambda>r. Inr ((hit # hits) @ r)))"

definition output_columns :: "string list" where
  "output_columns =
     [''Date'', ''CurrencyCode'', ''CurrencyName'', ''Nominal'', ''Value'', ''Rate'']"

text \<open>The rows of a frame, each a record from label to cell.\<close>

definition rows_of :: "'f frame \<Rightarrow> 'f row list" where
  "rows_of df = map (\<lambda>i. map (\<lambda>(l, cs). (l, cs ! i)) df) [0..<nrows df]"

text \<open>
  \<^verbatim>\<open>series.str.replace(',', '.')\<close>. A column read from a document has dtype object
  when one of its cells is a string (or when it has no cell at all), and is numeric
  otherwise. The \<^verbatim>\<open>.str\<close> accessor raises \<^verbatim>\<open>AttributeError\<close> on a numeric
  column; on an object column it replaces in the strings and gives NaN for every cell that
  is not a string.
\<close>

definition replace_comma :: "string \<Rightarrow> string" where
  "replace_comma s = map (\<lambda>c. if c = CHR '','' then CHR ''.'' else c) s"

fun is_str :: "'f cell \<Rightarrow> bool" where
  "is_str (CStr s) = True"
| "is_str c = False"

fun replace_in_cell :: "'f cell \<Rightarrow> 'f cell" where
  "replace_in_cell (CStr s) = CStr (replace_comma s)"
| "replace_in_cell c = CNaN"

definition str_replace_comma :: "'f column \<Rightarrow> exn + 'f column" where
  "str_replace_comma cs =
     (if cs = [] \<or> list_ex is_str cs then Inr (map replace_in_cell cs)
      else Inl (Raise AttributeError ''Can only use .str accessor with string values''))"

section \<open>The environment and the world\<close>

text \<open>
  What the libraries answer is the environment of a run: the clock, the outcome of the
  database probe and of the aggregate query, the provider's answer for each date, the
  result of parsing a document, the outcome of each write, and the numeric conversions of
  Python and numpy on doubles. The clock does not advance during a run.
\<close>

record response =
  status_code :: nat
  body :: string

datatype csv_fault =
    CsvOk
  | CsvOpenFails exn     \<comment> \<open>the file could not be opened: nothing changes\<close>
  | CsvWriteFails exn nat
      \<comment> \<open>the file was opened (hence created) and the write failed after that many lines\<close>

record 'f env =
  today :: date                                        \<comment> \<open>\<^verbatim>\<open>datetime.now().date()\<close>\<close>
  db_probe :: "exn option"                             \<comment> \<open>\<^verbatim>\<open>create_engine\<close>, \<^verbatim>\<open>connect\<close>, \<^verbatim>\<open>SELECT 1\<close>\<close>
  db_query_fault :: "exn option"                       \<comment> \<open>failure of \<^verbatim>\<open>connect\<close> or \<^verbatim>\<open>execute\<close> in the aggregate query\<close>
  requests_get :: "date \<Rightarrow> exn + response"            \<comment> \<open>\<^verbatim>\<open>requests.get\<close> of the daily document\<close>
  read_xml :: "string \<Rightarrow> exn + 'f frame"               \<comment> \<open>\<^verbatim>\<open>pd.read_xml\<close>\<close>
  concat_reindexed :: "'f frame list \<Rightarrow> exn + 'f frame" \<comment> \<open>\<^verbatim>\<open>pd.concat\<close> of frames whose labels differ\<close>
  to_sql_fault :: "'f frame \<Rightarrow> exn option"             \<comment> \<open>failure of \<^verbatim>\<open>df.to_sql\<close> (rolled back)\<close>
  to_csv_fault :: "'f frame \<Rightarrow> csv_fault"              \<comment> \<open>failure of \<^verbatim>\<open>df.to_csv\<close>\<close>
  sleep_fault :: "date \<Rightarrow> exn option"                 \<comment> \<open>\<^verbatim>\<open>time.sleep\<close> failing or interrupted\<close>
  float_of_str :: "string \<Rightarrow> 'f option"               \<comment> \<open>\<^verbatim>\<open>float(s)\<close>; \<open>None\<close> is \<^verbatim>\<open>ValueError\<close>\<close>
  float_of_int :: "int \<Rightarrow> 'f"
  int_of_str :: "string \<Rightarrow> int option"                \<comment> \<open>\<^verbatim>\<open>int(s)\<close>; \<open>None\<close> is \<^verbatim>\<open>ValueError\<close>\<close>
  int_of_float :: "'f \<Rightarrow> 64 word option"               \<comment> \<open>the int64 numpy's cast stores; \<open>None\<close> for the infinities\<close>
  truediv :: "'f \<Rightarrow> int \<Rightarrow> 'f"                        \<comment> \<open>float64 divided by int64; total, as in numpy\<close>

text \<open>
  The state a run changes: the log, the table \<^verbatim>\<open>public.currency_rates\<close>
  (\<open>None\<close> while the relation does not exist) and the file
  \<^verbatim>\<open>currency_backup.csv\<close> (\<open>None\<close> while it does not exist).
\<close>

datatype 'f csv_line = Header "string list" | Data "'f cell list"

record 'f world =
  logged :: "(level \<times> 'f cell msg) list"
  table :: "'f row list option"
  csv_file :: "'f csv_line list option"

definition add_log :: "level \<Rightarrow> 'f cell msg \<Rightarrow> 'f world \<Rightarrow> 'f world" where
  "add_log lv m w = w\<lparr>logged := logged w @ [(lv, m)]\<rparr>"

datatype engine = Engine

section \<open>Fetching one day: \<^verbatim>\<open>get_cbr_rates\<close>\<close>

text \<open>\<^verbatim>\<open>series.astype(float)\<close>, cell by cell. NaN stays NaN.\<close>

definition float_cell :: "('f, 'x) env_scheme \<Rightarrow> 'f cell \<Rightarrow> exn + 'f cell" where
  "float_cell env c =
     (case c of
        CStr s \<Rightarrow> (case float_of_str env s of
                     None \<Rightarrow> Inl (Raise ValueError (''could not convert string to float: '' @ s))
                   | Some f \<Rightarrow> Inr (CFloat f))
      | CInt n \<Rightarrow> Inr (CFloat (float_of_int env n))
      | CFloat f \<Rightarrow> Inr (CFloat f)
      | CDate d \<Rightarrow> Inl (Raise TypeError ''float() argument must be a string or a real number'')
      | CNaN \<Rightarrow> Inr CNaN)"

text \<open>
  \<^verbatim>\<open>series.astype(int)\<close>: the target is numpy's int64. An integer that fits is kept;
  an integer from \<^verbatim>\<open>2**63\<close> up to \<^verbatim>\<open>2**64 - 1\<close> sits in a uint64 column and wraps around;
  any other integer, and the integer of a string that does not fit, raises
  \<^verbatim>\<open>OverflowError\<close>. NaN cannot be converted.
\<close>

definition in_int64 :: "int \<Rightarrow> bool" where
  "in_int64 n = (- (2 ^ 63) \<le> n \<and> n < 2 ^ 63)"

definition too_large :: exn where
  "too_large = Raise OverflowError ''Python int too large to convert to C long''"

definition int_cell :: "('f, 'x) env_scheme \<Rightarrow> 'f cell \<Rightarrow> exn + 'f cell" where
  "int_cell env c =
     (case c of
        CStr s \<Rightarrow> (case int_of_str env s of
                     None \<Rightarrow> Inl (Raise ValueError (''invalid literal for int(): '' @ s))
                   | Some n \<Rightarrow> if in_int64 n then Inr (CInt n) else Inl too_large)
      | CInt n \<Rightarrow>
          if in_int64 n then Inr (CInt n)
          else if 2 ^ 63 \<le> n \<and> n < 2 ^ 64 then Inr (CInt (n - 2 ^ 64))
          else Inl too_large
      | CFloat f \<Rightarrow> (case int_of_float env f of
                       None \<Rightarrow> Inl (Raise ValueError ''Cannot convert non-finite values to integer'')
                     | Some i \<Rightarrow> Inr (CInt (sint i)))
      | CDate d \<Rightarrow> Inl (Raise TypeError ''int() argument must be a string or a real number'')
      | CNaN \<Rightarrow> Inl (Raise ValueError ''Cannot convert non-finite values (NA or inf) to integer''))"

fun cast_all :: "('a \<Rightarrow> exn + 'b) \<Rightarrow> 'a list \<Rightarrow> exn + 'b list" where
  "cast_all f [] = Inr []"
| "cast_all f (c # cs) =
     and_then (f c) (\<lambda>c'. and_then (cast_all f cs) (\<lambda>cs'. Inr (c' # cs')))"

definition astype_float :: "('f, 'x) env_scheme \<Rightarrow> 'f column \<Rightarrow> exn + 'f column" where
  "astype_float env cs = cast_all (float_cell env) cs"

definition astype_int :: "('f, 'x) env_scheme \<Rightarrow> 'f column \<Rightarrow> exn + 'f column" where
  "astype_int env cs = cast_all (int_cell env) cs"

text \<open>
  \<^verbatim>\<open>df['Value'] / df['Nominal']\<close>, a float column over an integer column. NaN divided
  by an integer is NaN.
\<close>

fun div_cell :: "('f, 'x) env_scheme \<Rightarrow> 'f cell \<times> 'f cell \<Rightarrow> exn + 'f cell" where
  "div_cell env (CFloat v, CInt n) = Inr (CFloat (truediv env v n))"
| "div_cell env (CNaN, CInt n) = Inr CNaN"
| "div_cell env (a, b) = Inl (Raise TypeError ''unsupported operand type(s) for /'')"

definition col_truediv :: "('f, 'x) env_scheme \<Rightarrow> 'f column \<Rightarrow> 'f column \<Rightarrow> exn + 'f column" where
  "col_truediv env vs ns = cast_all (div_cell env) (zip vs ns)"

text \<open>\<^verbatim>\<open>response.raise_for_status()\<close>\<close>

definition raise_for_status :: "response \<Rightarrow> exn + unit" where
  "raise_for_status r =
     (if 400 \<le> status_code r \<and> status_code r < 600
      then Inl (Raise HTTPError ''Client or Server Error'') else Inr ())"

text \<open>
  Lines 87 to 95 of \<^verbatim>\<open>currency_api.py\<close> (61 to 69 of
  \<^verbatim>\<open>currency_api_date.py\<close>): the processing of the parsed frame for the date \<open>d\<close>.
  In the incremental loader \<open>d\<close> is \<^verbatim>\<open>strptime(strftime(date_req))\<close>, the requested
  date again.
\<close>

definition process_frame :: "('f, 'x) env_scheme \<Rightarrow> date \<Rightarrow> 'f frame \<Rightarrow> exn + 'f frame" where
  "process_frame env d df0 =
     (let df1 = set_col ''Date'' (replicate (nrows df0) (CDate d)) df0 in
      and_then (get_col ''Value'' df1) (\<lambda>v.
      and_then (str_replace_comma v) (\<lambda>v'.
      and_then (astype_float env v') (\<lambda>fv.
      let df2 = set_col ''Value'' fv df1 in
      and_then (get_col ''Nominal'' df2) (\<lambda>n.
      and_then (astype_int env n) (\<lambda>ni.
      let df3 = set_col ''Nominal'' ni df2 in
      and_then (get_col ''Value'' df3) (\<lambda>a.
      and_then (get_col ''Nominal'' df3) (\<lambda>b.
      and_then (col_truediv env a b) (\<lambda>r.
      let df4 = set_col ''Rate'' r df3 in
      select_columns output_columns (rename_columns df4))))))))))"

text \<open>The body of the \<^verbatim>\<open>try\<close> block of \<^verbatim>\<open>get_cbr_rates\<close>, for the date \<open>d\<close>.\<close>

definition fetch_body :: "('f, 'x) env_scheme \<Rightarrow> date \<Rightarrow> exn + 'f frame" where
  "fetch_body env d =
     and_then (requests_get env d) (\<lambda>r.
     and_then (raise_for_status r) (\<lambda>u.
     and_then (read_xml env (body r)) (\<lambda>df.
     process_frame env d df)))"

text \<open>
  \<^verbatim>\<open>get_cbr_rates(date_req=None)\<close> of the incremental loader: without a date it asks
  for today. An exception of class \<^verbatim>\<open>Exception\<close> is logged and the empty frame is
  returned; any other exception leaves the function.
\<close>

definition get_cbr_rates ::
  "('f, 'x) env_scheme \<Rightarrow> date option \<Rightarrow> 'f world \<Rightarrow> (exn + 'f frame) \<times> 'f world" where
  "get_cbr_rates env date_req w =
     (let d = (case date_req of Some d \<Rightarrow> d | None \<Rightarrow> today env) in
      case fetch_body env d of
        Inr df \<Rightarrow> (Inr df, w)
      | Inl e \<Rightarrow>
          if is_Exception e then (Inr [], add_log ERROR (FetchError (exn_str e)) w)
          else (Inl e, w))"

text \<open>\<^verbatim>\<open>get_cbr_rates(date_req)\<close> of the historical loader.\<close>

definition get_cbr_rates_hist ::
  "('f, 'x) env_scheme \<Rightarrow> date \<Rightarrow> 'f world \<Rightarrow> (exn + 'f frame) \<times> 'f world" where
  "get_cbr_rates_hist env d w =
     (case fetch_body env d of
        Inr df \<Rightarrow> (Inr df, w)
      | Inl e \<Rightarrow>
          if is_Exception e then (Inr [], add_log ERROR (FetchErrorAt d (exn_str e)) w)
          else (Inl e, w))"

section \<open>The store: \<^verbatim>\<open>get_db_engine\<close>, \<^verbatim>\<open>get_last_loaded_date\<close>, \<^verbatim>\<open>save_data\<close>\<close>

text \<open>Python's \<^verbatim>\<open>needle in haystack\<close> on strings.\<close>

fun starts_with :: "string \<Rightarrow> string \<Rightarrow> bool" where
  "starts_with [] hs = True"
| "starts_with (n # ns) [] = False"
| "starts_with (n # ns) (h # hs) = (n = h \<and> starts_with ns hs)"

fun contains :: "string \<Rightarrow> string \<Rightarrow> bool" where
  "contains ns [] = (ns = [])"
| "contains ns (h # hs) = (starts_with ns (h # hs) \<or> contains ns hs)"

text \<open>
  \<^verbatim>\<open>get_db_engine\<close> of the incremental loader. The connection is probed with
  \<^verbatim>\<open>SELECT 1\<close>; the three handlers log an error, and the function returns
  \<^verbatim>\<open>None\<close> after any of them.
\<close>

definition get_db_engine ::
  "('f, 'x) env_scheme \<Rightarrow> 'f world \<Rightarrow> (exn + engine option) \<times> 'f world" where
  "get_db_engine env w =
     (case db_probe env of
        None \<Rightarrow> (Inr (Some Engine), add_log INFO ConnOk w)
      | Some (Raise c m) \<Rightarrow>
          if c = OperationalError then (Inr None, add_log ERROR (ConnUnavailable m) w)
          else if c = ProgrammingError then
            (Inr None,
             add_log ERROR
               (if contains ''password authentication failed'' m then BadCredentials
                else if contains ''database'' m \<and> contains ''does not exist'' m then DbMissing
                else SqlError m) w)
          else if is_Exception (Raise c m) then (Inr None, add_log ERROR (UnknownError m) w)
          else (Inl (Raise c m), w))"

text \<open>\<^verbatim>\<open>get_db_engine\<close> of the historical loader: one handler.\<close>

definition get_db_engine_hist ::
  "('f, 'x) env_scheme \<Rightarrow> 'f world \<Rightarrow> (exn + engine option) \<times> 'f world" where
  "get_db_engine_hist env w =
     (case db_probe env of
        None \<Rightarrow> (Inr (Some Engine), add_log INFO ConnOk w)
      | Some e \<Rightarrow>
          if is_Exception e then (Inr None, add_log ERROR (ConnError (exn_str e)) w)
          else (Inl e, w))"

text \<open>
  The aggregate \<^verbatim>\<open>SELECT MAX("Date") FROM public.currency_rates\<close>: the greatest date
  of a row, \<open>None\<close> (SQL null) when no row has one, an error when the relation does not
  exist or the environment makes the query fail.
\<close>

definition date_of_row :: "'f row \<Rightarrow> date option" where
  "date_of_row r = (case map_of r ''Date'' of Some (CDate d) \<Rightarrow> Some d | _ \<Rightarrow> None)"

definition persisted_dates :: "'f row list \<Rightarrow> date list" where
  "persisted_dates rs = List.map_filter date_of_row rs"

definition sql_max :: "date list \<Rightarrow> date option" where
  "sql_max ds = (if ds = [] then None else Some (Max (set ds)))"

definition max_date_query :: "('f, 'x) env_scheme \<Rightarrow> 'f world \<Rightarrow> exn + date option" where
  "max_date_query env w =
     (case db_query_fault env of
        Some e \<Rightarrow> Inl e
      | None \<Rightarrow>
          (case table w of
             None \<Rightarrow> Inl (Raise ProgrammingError ''relation public.currency_rates does not exist'')
           | Some rs \<Rightarrow> Inr (sql_max (persisted_dates rs))))"

text \<open>
  \<^verbatim>\<open>get_last_loaded_date(engine)\<close>. With \<^verbatim>\<open>engine = None\<close> the call
  \<^verbatim>\<open>engine.connect()\<close> raises \<^verbatim>\<open>AttributeError\<close> inside the \<^verbatim>\<open>try\<close>.
\<close>

definition get_last_loaded_date ::
  "('f, 'x) env_scheme \<Rightarrow> engine option \<Rightarrow> 'f world \<Rightarrow> (exn + date) \<times> 'f world" where
  "get_last_loaded_date env eng w =
     (case (case eng of
              None \<Rightarrow> Inl (Raise AttributeError ''NoneType object has no attribute connect'')
            | Some e \<Rightarrow> max_date_query env w) of
        Inr (Some last_date) \<Rightarrow> (Inr last_date, w)
      | Inr None \<Rightarrow> (Inr (today env - 1), w)
      | Inl e \<Rightarrow>
          if is_Exception e
          then (Inr (today env - 1), add_log ERROR (LastDateError (exn_str e)) w)
          else (Inl e, w))"

text \<open>
  \<^verbatim>\<open>df.to_sql('currency_rates', engine, if_exists='append', ...)\<close>: the rows of the
  frame are added after the rows of the table, which is created when missing. The write
  runs in one transaction, so a failure leaves the table as it was.
\<close>

definition existing :: "'a list option \<Rightarrow> 'a list" where
  "existing x = (case x of None \<Rightarrow> [] | Some xs \<Rightarrow> xs)"

definition to_sql :: "('f, 'x) env_scheme \<Rightarrow> 'f frame \<Rightarrow> 'f world \<Rightarrow> exn + 'f world" where
  "to_sql env df w =
     (case to_sql_fault env df of
        Some e \<Rightarrow> Inl e
      | None \<Rightarrow> Inr (w\<lparr>table := Some (existing (table w) @ rows_of df)\<rparr>))"

text \<open>
  \<^verbatim>\<open>df.to_csv(csv_path, mode='a', header=not csv_path.exists(), index=False)\<close>:
  the header line is the list of labels. A write that fails after the file was opened
  leaves the lines it had already written.
\<close>

definition csv_lines :: "bool \<Rightarrow> 'f frame \<Rightarrow> 'f csv_line list" where
  "csv_lines header df =
     (if header then [Header (map fst df)] else []) @ map (\<lambda>r. Data (map snd r)) (rows_of df)"

definition to_csv ::
  "('f, 'x) env_scheme \<Rightarrow> 'f frame \<Rightarrow> 'f world \<Rightarrow> (exn + unit) \<times> 'f world" where
  "to_csv env df w =
     (let header = (csv_file w = None) in
      case to_csv_fault env df of
        CsvOpenFails e \<Rightarrow> (Inl e, w)
      | CsvWriteFails e k \<Rightarrow>
          (Inl e,
           w\<lparr>csv_file := Some (existing (csv_file w) @ take k (csv_lines header df))\<rparr>)
      | CsvOk \<Rightarrow>
          (Inr (), w\<lparr>csv_file := Some (existing (csv_file w) @ csv_lines header df)\<rparr>))"

text \<open>\<^verbatim>\<open>save_data(df, engine)\<close> of the incremental loader.\<close>

definition save_data ::
  "('f, 'x) env_scheme \<Rightarrow> 'f frame \<Rightarrow> engine option \<Rightarrow> 'f world \<Rightarrow> (exn + bool) \<times> 'f world" where
  "save_data env df eng w =
     (case eng of
        Some e \<Rightarrow>
          (case to_sql env df w of
             Inr w' \<Rightarrow> (Inr True, add_log INFO (SavedPg (nrows df)) w')
           | Inl e \<Rightarrow>
               if is_Exception e then (Inr False, add_log ERROR (SavePgError (exn_str e)) w)
               else (Inl e, w))
      | None \<Rightarrow>
          (case to_csv env df w of
             (Inr u, w') \<Rightarrow> (Inr True, add_log INFO SavedCsv w')
           | (Inl e, w') \<Rightarrow>
               if is_Exception e then (Inr False, add_log ERROR (SaveCsvError (exn_str e)) w')
               else (Inl e, w')))"

text \<open>
  \<^verbatim>\<open>save_data(df, engine)\<close> of the historical loader: no file; the success record
  reads \<^verbatim>\<open>df['Date'].iloc[0]\<close> inside the \<^verbatim>\<open>try\<close>, after the write.
\<close>

definition iloc0 :: "'f column \<Rightarrow> exn + 'f cell" where
  "iloc0 cs =
     (case cs of
        [] \<Rightarrow> Inl (Raise IndexError ''single positional indexer is out-of-bounds'')
      | c # rest \<Rightarrow> Inr c)"

definition save_data_hist ::
  "('f, 'x) env_scheme \<Rightarrow> 'f frame \<Rightarrow> engine option \<Rightarrow> 'f world \<Rightarrow> (exn + bool) \<times> 'f world" where
  "save_data_hist env df eng w =
     (case (case eng of
              None \<Rightarrow> (Inl (Raise OtherException ''no connection''), w)
            | Some e \<Rightarrow>
                (case to_sql env df w of
                   Inl e \<Rightarrow> (Inl e, w)
                 | Inr w' \<Rightarrow>
                     (case and_then (get_col ''Date'' df) iloc0 of
                        Inl e \<Rightarrow> (Inl e, w')
                      | Inr c \<Rightarrow> (Inr True, add_log INFO (SavedFor (nrows df) c) w')))) of
        (Inr ok, w1) \<Rightarrow> (Inr ok, w1)
      | (Inl e, w1) \<Rightarrow>
          if is_Exception e then (Inr False, add_log ERROR (SaveError (exn_str e)) w1)
          else (Inl e, w1))"

section \<open>The two runs: \<^verbatim>\<open>main\<close>\<close>

text \<open>
  \<^verbatim>\<open>pd.concat(all_data, ignore_index=True)\<close>: frames with the same labels are put
  one after the other, column by column; what pandas does with frames whose labels differ
  is the environment's.
\<close>

definition append_frame :: "'f frame \<Rightarrow> 'f frame \<Rightarrow> 'f frame" where
  "append_frame a b = map (\<lambda>((l, cs), (k, ds)). (l, cs @ ds)) (zip a b)"

definition pd_concat :: "('f, 'x) env_scheme \<Rightarrow> 'f frame list \<Rightarrow> exn + 'f frame" where
  "pd_concat env fs =
     (case fs of
        [] \<Rightarrow> Inl (Raise ValueError ''No objects to concatenate'')
      | f # rest \<Rightarrow>
          if list_all (\<lambda>g. map fst g = map fst f) rest then Inr (foldl append_frame f rest)
          else concat_reindexed env fs)"

text \<open>
  Lines 153 to 157 of \<^verbatim>\<open>currency_api.py\<close>: the loop over the planned dates, which
  collects the frames that are not empty.
\<close>

fun fetch_loop ::
  "('f, 'x) env_scheme \<Rightarrow> date list \<Rightarrow> 'f frame list \<Rightarrow> 'f world
     \<Rightarrow> (exn + 'f frame list) \<times> 'f world" where
  "fetch_loop env [] all_data w = (Inr all_data, w)"
| "fetch_loop env (d # ds) all_data w =
     (case get_cbr_rates env (Some d) w of
        (Inl e, w') \<Rightarrow> (Inl e, w')
      | (Inr df, w') \<Rightarrow>
          if \<not> empty_frame df
          then fetch_loop env ds (all_data @ [df]) (add_log INFO (Received d) w')
          else fetch_loop env ds all_data w')"

text \<open>
  Line 138: the watermark is read from the store when there is an engine, and is
  yesterday otherwise.
\<close>

definition resolve_watermark ::
  "('f, 'x) env_scheme \<Rightarrow> engine option \<Rightarrow> 'f world \<Rightarrow> (exn + date) \<times> 'f world" where
  "resolve_watermark env eng w =
     (if eng \<noteq> None then get_last_loaded_date env eng w else (Inr (today env - 1), w))"

text \<open>
  Lines 159 to 166: after the loop. Without any frame the run ends with a warning;
  otherwise the frames are concatenated and saved in one call, whose result is not read.
\<close>

definition finish_run ::
  "('f, 'x) env_scheme \<Rightarrow> engine option \<Rightarrow> (exn + 'f frame list) \<times> 'f world
     \<Rightarrow> (exn + unit) \<times> 'f world" where
  "finish_run env eng r =
     (case r of
        (Inl e, w5) \<Rightarrow> (Inl e, w5)
      | (Inr all_data, w5) \<Rightarrow>
          if all_data = [] then (Inr (), add_log WARNING NothingToSave w5)
          else
            (case pd_concat env all_data of
               Inl e \<Rightarrow> (Inl e, w5)
             | Inr final_df \<Rightarrow>
                 (case save_data env final_df eng w5 of
                    (Inl e, w6) \<Rightarrow> (Inl e, w6)
                  | (Inr ok, w6) \<Rightarrow> (Inr (), w6))))"

text \<open>The body of the \<^verbatim>\<open>try\<close> block of \<^verbatim>\<open>main\<close>, incremental loader.\<close>

definition main_body :: "('f, 'x) env_scheme \<Rightarrow> 'f world \<Rightarrow> (exn + unit) \<times> 'f world" where
  "main_body env w0 =
     (case get_db_engine env w0 of
        (Inl e, w1) \<Rightarrow> (Inl e, w1)
      | (Inr eng, w1) \<Rightarrow>
          let w2 = (if eng = None then add_log ERROR NoDbUsingBackup w1 else w1) in
          (case resolve_watermark env eng w2 of
             (Inl e, w3) \<Rightarrow> (Inl e, w3)
           | (Inr last_date, w3) \<Rightarrow>
               let start_date = last_date + 1; end_date = today env in
               if start_date > end_date
               then (Inr (), add_log INFO (NothingNew last_date) w3)
               else
                 let w4 = add_log INFO (Loading start_date end_date) w3 in
                 finish_run env eng
                   (fetch_loop env (date_range start_date end_date) [] w4)))"

text \<open>
  \<^verbatim>\<open>main\<close> of the incremental loader: the whole body is in a \<^verbatim>\<open>try\<close> whose
  handler logs at level CRITICAL.
\<close>

definition main :: "('f, 'x) env_scheme \<Rightarrow> 'f world \<Rightarrow> (exn + unit) \<times> 'f world" where
  "main env w0 =
     (case main_body env w0 of
        (Inr u, w) \<Rightarrow> (Inr u, w)
      | (Inl e, w) \<Rightarrow>
          if is_Exception e then (Inr (), add_log CRITICAL (Fatal (exn_str e)) w)
          else (Inl e, w))"

text \<open>
  Lines 107 to 116 of \<^verbatim>\<open>currency_api_date.py\<close>: each date is fetched, saved at once
  when its frame is not empty, and followed by a pause.
\<close>

fun hist_loop ::
  "('f, 'x) env_scheme \<Rightarrow> engine option \<Rightarrow> date list \<Rightarrow> 'f world
     \<Rightarrow> (exn + unit) \<times> 'f world" where
  "hist_loop env eng [] w = (Inr (), w)"
| "hist_loop env eng (d # ds) w =
     (case get_cbr_rates_hist env d w of
        (Inl e, w1) \<Rightarrow> (Inl e, w1)
      | (Inr df, w1) \<Rightarrow>
          (case (if \<not> empty_frame df
                 then (case save_data_hist env df eng w1 of
                         (Inl e, w2) \<Rightarrow> (Inl e, w2)
                       | (Inr ok, w2) \<Rightarrow>
                           (Inr (), if \<not> ok then add_log WARNING (SkipSave d) w2 else w2))
                 else (Inr (), add_log WARNING (NoDataFor d) w1)) of
             (Inl e, w3) \<Rightarrow> (Inl e, w3)
           | (Inr u, w3) \<Rightarrow>
               (case sleep_fault env d of
                  Some e \<Rightarrow> (Inl e, w3)
                | None \<Rightarrow> hist_loop env eng ds w3)))"

text \<open>
  \<^verbatim>\<open>main\<close> of the historical loader: no \<^verbatim>\<open>try\<close>; without an engine it calls
  \<^verbatim>\<open>sys.exit(1)\<close>, which raises \<^verbatim>\<open>SystemExit\<close>.
\<close>

definition main_hist :: "('f, 'x) env_scheme \<Rightarrow> 'f world \<Rightarrow> (exn + unit) \<times> 'f world" where
  "main_hist env w0 =
     (case get_db_engine_hist env w0 of
        (Inl e, w1) \<Rightarrow> (Inl e, w1)
      | (Inr eng, w1) \<Rightarrow>
          if eng = None then (Inl (Raise SystemExit ''1''), w1)
          else
            let start_date = ymd 2000 1 2; end_date = ymd 2015 6 24;
                w2 = add_log INFO (HistStart start_date end_date) w1 in
            (case hist_loop env eng (date_range start_date end_date) w2 of
               (Inl e, w3) \<Rightarrow> (Inl e, w3)
             | (Inr u, w3) \<Rightarrow> (Inr (), add_log INFO HistDone w3)))"

section \<open>Notions used in the statements\<close>

text \<open>The frame a fetch hands to its caller when no exception leaves it.\<close>

definition fetched :: "('f, 'x) env_scheme \<Rightarrow> date \<Rightarrow> 'f frame" where
  "fetched env d = (case fetch_body env d of Inr df \<Rightarrow> df | Inl e \<Rightarrow> [])"

text \<open>A result that is a value or an exception of class \<^verbatim>\<open>Exception\<close>.\<close>

definition catchable :: "exn + 'a \<Rightarrow> bool" where
  "catchable r = (case r of Inl e \<Rightarrow> is_Exception e | Inr x \<Rightarrow> True)"

text \<open>The invariant of pandas frames: every column has the length of the index.\<close>

definition rectangular :: "'f frame \<Rightarrow> bool" where
  "rectangular df = list_all (\<lambda>(l, cs). length cs = nrows df) df"

text \<open>A sequence of calls \<^verbatim>\<open>save_data(df, None)\<close>, one per frame.\<close>

fun save_all :: "('f, 'x) env_scheme \<Rightarrow> 'f frame list \<Rightarrow> 'f world \<Rightarrow> 'f world" where
  "save_all env [] w = w"
| "save_all env (df # dfs) w = save_all env dfs (snd (save_data env df None w))"

definition is_header :: "'f csv_line \<Rightarrow> bool" where
  "is_header x = (case x of Header ls \<Rightarrow> True | Data cs \<Rightarrow> False)"

text \<open>The log records that only \<^verbatim>\<open>save_data\<close> writes; each call writes one.\<close>

definition is_save_record :: "level \<times> 'c msg \<Rightarrow> bool" where
  "is_save_record r =
     (case snd r of
        SavedPg n \<Rightarrow> True | SavePgError m \<Rightarrow> True | SavedCsv \<Rightarrow> True
      | SaveCsvError m \<Rightarrow> True | SavedFor n c \<Rightarrow> True | SaveError m \<Rightarrow> True
      | _ \<Rightarrow> False)"

text \<open>
  A concrete environment, on which the statements below are evaluated: the provider
  answers every date with one US dollar entry, every write succeeds, and doubles are
  taken to be exact rationals. The clock reads 2024-03-01, ordinal 738946.
\<close>

definition provider_frame :: "rat frame" where
  "provider_frame =
     [(''NumCode'', [CInt 840]), (''CharCode'', [CStr ''USD'']), (''Nominal'', [CInt 1]),
      (''Name'', [CStr ''US Dollar'']), (''Value'', [CStr ''90,50''])]"

definition demo_env :: "rat env" where
  "demo_env =
     \<lparr>today = 738946, db_probe = None, db_query_fault = None,
      requests_get = (\<lambda>d. Inr \<lparr>status_code = 200, body = ''doc''\<rparr>),
      read_xml = (\<lambda>s. Inr provider_frame),
      concat_reindexed = (\<lambda>fs. Inl (Raise InvalidIndexError ''Reindexing only valid with uniquely valued Index objects'')),
      to_sql_fault = (\<lambda>df. None), to_csv_fault = (\<lambda>df. CsvOk), sleep_fault = (\<lambda>d. None),
      float_of_str =
        (\<lambda>s. if s = ''90.50'' then Some (181 / 2)
              else if s = ''60.50'' then Some (121 / 2) else None),
      float_of_int = of_int,
      int_of_str = (\<lambda>s. if s = ''1'' then Some 1 else if s = ''100'' then Some 100 else None),
      int_of_float = (\<lambda>f. None),
      truediv = (\<lambda>v n. v / of_int n)\<rparr>"

definition fresh_world :: "rat world" where
  "fresh_world = \<lparr>logged = [], table = None, csv_file = None\<rparr>"

definition usd_row :: "date \<Rightarrow> rat row" where
  "usd_row d = [(''Date'', CDate d), (''CurrencyCode'', CStr ''USD'')]"

text \<open>
  Two worlds with the same table, the same fallback file and the same records written by
  \<^verbatim>\<open>save_data\<close>: between them nothing was persisted and no save was attempted.
\<close>

definition same_store :: "'f world \<Rightarrow> 'f world \<Rightarrow> bool" where
  "same_store w w' \<longleftrightarrow> table w' = table w \<and> csv_file w' = csv_file w
     \<and> filter is_save_record (logged w') = filter is_save_record (logged w)"

text \<open>
  A document as the provider's fields arrive, all of them text: the US dollar at nominal 1
  and the yen at nominal 100.
\<close>

definition listed_frame :: "rat frame" where
  "listed_frame =
     [(''CharCode'', [CStr ''USD'', CStr ''JPY'']), (''Nominal'', [CStr ''1'', CStr ''100'']),
      (''Name'', [CStr ''US Dollar'', CStr ''Yen'']),
      (''Value'', [CStr ''90,50'', CStr ''60,50''])]"


definition mixed_env :: "rat env" where
  "mixed_env =
     demo_env
       \<lparr>requests_get :=
          (\<lambda>d. Inr \<lparr>status_code = 200, body = (if d = 738945 then ''a'' else ''b'')\<rparr>),
        read_xml :=
          (\<lambda>s. if s = ''a'' then Inr provider_frame
                else Inr (provider_frame @ [(''CurrencyCode'', [CStr ''XXX''])]))\<rparr>"

definition down_env :: "rat env" where
  "down_env = demo_env\<lparr>db_probe := Some (Raise OperationalError ''connection refused'')\<rparr>"

text \<open>The frame a fetch returns for the date \<open>d\<close> in this environment.\<close>

definition usd_frame :: "date \<Rightarrow> rat frame" where
  "usd_frame d =
     [(''Date'', [CDate d]), (''CurrencyCode'', [CStr ''USD'']),
      (''CurrencyName'', [CStr ''US Dollar'']), (''Nominal'', [CInt 1]),
      (''Value'', [CFloat (181 / 2)]), (''Rate'', [CFloat (181 / 2)])]"

text \<open>
  The world after an incremental run on 2024-03-01 that started from a table holding one
  row dated the day before: the day's row has been appended.
\<close>

definition after_first_run :: "rat world" where
  "after_first_run =
     \<lparr>logged = [(INFO, ConnOk), (INFO, Loading 738946 738946), (INFO, Received 738946),
                (INFO, SavedPg 1)],
      table = Some [usd_row 738945,
                    [(''Date'', CDate 738946), (''CurrencyCode'', CStr ''USD''),
                     (''CurrencyName'', CStr ''US Dollar''), (''Nominal'', CInt 1),
                     (''Value'', CFloat (181 / 2)), (''Rate'', CFloat (181 / 2))]],
      csv_file = None\<rparr>"

text \<open>A provider that does not answer for 2024-02-29 (ordinal 738945).\<close>

definition gap_env :: "rat env" where
  "gap_env =
     demo_env
       \<lparr>requests_get :=
          (\<lambda>d. if d = 738945 then Inl (Raise RequestException ''timed out'')
                else Inr \<lparr>status_code = 200, body = ''doc''\<rparr>)\<rparr>"

definition disk_full_env :: "rat env" where
  "disk_full_env =
     down_env
       \<lparr>to_csv_fault :=
          (\<lambda>df. if df = usd_frame 738945
                 then CsvWriteFails (Raise OSError ''[Errno 28] No space left on device'') 0
                 else CsvOk)\<rparr>"

text \<open>A fallback file that cannot be opened for the first frame.\<close>

definition locked_env :: "rat env" where
  "locked_env =
     down_env
       \<lparr>to_csv_fault :=
          (\<lambda>df. if df = usd_frame 738944
                 then CsvOpenFails (Raise OSError ''[Errno 13] Permission denied'')
                 else CsvOk)\<rparr>"

section \<open>Fetching never raises\<close>

lemmas frame_ops =
  and_then_def process_frame_def set_col_def get_col_def nrows_def
  str_replace_comma_def replace_comma_def astype_float_def astype_int_def float_cell_def
  int_cell_def in_int64_def col_truediv_def rename_columns_def rename_label_def
  output_columns_def

text \<open>The four places where the \<^verbatim>\<open>try\<close> block of a fetch can fail.\<close>

lemma fetch_body_fails_iff:
  "fetch_body env d = Inl e \<longleftrightarrow>
     (requests_get env d = Inl e
      \<or> (\<exists>r. requests_get env d = Inr r
            \<and> (raise_for_status r = Inl e
                \<or> raise_for_status r = Inr () \<and> read_xml env (body r) = Inl e
                \<or> (\<exists>df. raise_for_status r = Inr () \<and> read_xml env (body r) = Inr df
                        \<and> process_frame env d df = Inl e))))"
  by (auto simp: fetch_body_def and_then_def split: sum.splits)

text \<open>
  Whatever the processing of a parsed frame raises (a missing column, a column that is
  not of strings, a field that is not a number) is of class \<^verbatim>\<open>Exception\<close>.
\<close>

lemma cast_all_fails:
  assumes "cast_all f cs = Inl e"
  shows "\<exists>c \<in> set cs. f c = Inl e"
  using assms
  by (induction cs) (auto simp: and_then_def split: sum.splits)

lemma select_columns_fails:
  "select_columns ls df = Inl e \<Longrightarrow> is_Exception e"
  by (induction ls arbitrary: e) (auto simp: and_then_def split: sum.splits list.splits)

lemma process_frame_fails:
  assumes "process_frame env d df = Inl e"
  shows "is_Exception e"
  using assms
  unfolding process_frame_def Let_def and_then_def
  by (auto split: sum.splits option.splits if_splits cell.splits
      simp: get_col_def str_replace_comma_def astype_float_def astype_int_def
        col_truediv_def float_cell_def int_cell_def too_large_def
      dest!: cast_all_fails select_columns_fails elim!: div_cell.elims)

text \<open>
  When the request and the parser raise nothing outside class \<^verbatim>\<open>Exception\<close>, a fetch
  always returns a frame.
\<close>

lemma fetch_body_catchable:
  assumes "catchable (requests_get env d)" and "\<forall>s. catchable (read_xml env s)"
  shows "catchable (fetch_body env d)"
proof (cases "fetch_body env d")
  case (Inl e)
  have "is_Exception e"
  proof (cases "requests_get env d")
    case req: (Inl x)
    with Inl have "x = e" by (simp add: fetch_body_def and_then_def)
    with req assms(1) show ?thesis by (simp add: catchable_def)
  next
    case req: (Inr r)
    show ?thesis
    proof (cases "raise_for_status r")
      case st: (Inl x)
      with req Inl have "x = e" by (simp add: fetch_body_def and_then_def)
      with st show ?thesis by (auto simp: raise_for_status_def split: if_splits)
    next
      case st: (Inr u)
      show ?thesis
      proof (cases "read_xml env (body r)")
        case xml: (Inl x)
        with req st Inl have "x = e" by (simp add: fetch_body_def and_then_def)
        moreover from assms(2) have "catchable (read_xml env (body r))" by blast
        ultimately show ?thesis using xml by (simp add: catchable_def)
      next
        case xml: (Inr df)
        with req st Inl have "process_frame env d df = Inl e"
          by (simp add: fetch_body_def and_then_def)
        then show ?thesis by (rule process_frame_fails)
      qed
    qed
  qed
  with Inl show ?thesis by (simp add: catchable_def)
next
  case (Inr df)
  then show ?thesis by (simp add: catchable_def)
qed

lemma get_cbr_rates_total:
  assumes "catchable (requests_get env d)" and "\<forall>s. catchable (read_xml env s)"
  shows "\<exists>df w'. get_cbr_rates env (Some d) w = (Inr df, w')"
    and "\<exists>df w'. get_cbr_rates_hist env d w = (Inr df, w')"
  using fetch_body_catchable [OF assms]
  by (auto simp: get_cbr_rates_def get_cbr_rates_hist_def catchable_def split: sum.splits)

text \<open>
  Claim C2. A fetch never raises past its boundary. Whenever the request fails (network
  error), the status is not a success, the document does not parse, or the processing of
  the parsed frame fails (a numeric field that cannot be converted), with an exception of
  class \<^verbatim>\<open>Exception\<close>, both \<^verbatim>\<open>get_cbr_rates\<close> (incremental and historical)
  log one error record and return the empty frame.
\<close>

theorem get_cbr_rates_never_raises:
  assumes "is_Exception e"
    and "requests_get env d = Inl e
      \<or> (\<exists>r. requests_get env d = Inr r
            \<and> (raise_for_status r = Inl e
                \<or> raise_for_status r = Inr () \<and> read_xml env (body r) = Inl e
                \<or> (\<exists>df. raise_for_status r = Inr () \<and> read_xml env (body r) = Inr df
                        \<and> process_frame env d df = Inl e)))"
  shows "get_cbr_rates env (Some d) w = (Inr [], add_log ERROR (FetchError (exn_str e)) w)
       \<and> get_cbr_rates_hist env d w = (Inr [], add_log ERROR (FetchErrorAt d (exn_str e)) w)"
proof -
  from assms(2) have "fetch_body env d = Inl e"
    by (simp only: fetch_body_fails_iff)
  with assms(1) show ?thesis
    by (simp add: get_cbr_rates_def get_cbr_rates_hist_def)
qed

theorem get_cbr_rates_never_raises_witness:
  "is_Exception (Raise ValueError ''could not convert string to float: n/a'')
   \<and> get_cbr_rates (demo_env\<lparr>read_xml := \<lambda>s. Inr [(''Value'', [CStr ''n/a''])]\<rparr>)
        (Some 738946) fresh_world
       = (Inr [], add_log ERROR (FetchError ''could not convert string to float: n/a'') fresh_world)
   \<and> get_cbr_rates_hist (demo_env\<lparr>requests_get := \<lambda>d. Inr \<lparr>status_code = 404, body = []\<rparr>\<rparr>)
        730121 fresh_world
       = (Inr [], add_log ERROR (FetchErrorAt 730121 ''Client or Server Error'') fresh_world)"
proof -
  let ?e = "Raise ValueError ''could not convert string to float: n/a''"
  let ?env = "demo_env\<lparr>read_xml := \<lambda>s. Inr [(''Value'', [CStr ''n/a''])]\<rparr>"
  let ?h = "Raise HTTPError ''Client or Server Error''"
  let ?env2 = "demo_env\<lparr>requests_get := \<lambda>d. Inr \<lparr>status_code = 404, body = []\<rparr>\<rparr>"
  have e: "is_Exception ?e" and h: "is_Exception ?h"
    by simp_all
  have "process_frame ?env 738946 [(''Value'', [CStr ''n/a''])] = Inl ?e"
    by (simp add: frame_ops demo_env_def)
  then have 1: "requests_get ?env 738946 = Inl ?e
      \<or> (\<exists>r. requests_get ?env 738946 = Inr r
            \<and> (raise_for_status r = Inl ?e
                \<or> raise_for_status r = Inr () \<and> read_xml ?env (body r) = Inl ?e
                \<or> (\<exists>df. raise_for_status r = Inr () \<and> read_xml ?env (body r) = Inr df
                        \<and> process_frame ?env 738946 df = Inl ?e)))"
    by (simp add: demo_env_def raise_for_status_def)
  have 2: "requests_get ?env2 730121 = Inl ?h
      \<or> (\<exists>r. requests_get ?env2 730121 = Inr r
            \<and> (raise_for_status r = Inl ?h
                \<or> raise_for_status r = Inr () \<and> read_xml ?env2 (body r) = Inl ?h
                \<or> (\<exists>df. raise_for_status r = Inr () \<and> read_xml ?env2 (body r) = Inr df
                        \<and> process_frame ?env2 730121 df = Inl ?h)))"
    by (simp add: demo_env_def raise_for_status_def)
  show ?thesis
    using get_cbr_rates_never_raises [OF e 1, of fresh_world]
      get_cbr_rates_never_raises [OF h 2, of fresh_world]
    by simp
qed

section \<open>Saving never raises\<close>

text \<open>
  Claim C3. \<^verbatim>\<open>save_data\<close> catches every write error. When the write to the table
  fails, or the write to the fallback file fails (on opening it or while writing), with an
  exception of class \<^verbatim>\<open>Exception\<close>, the function logs one error record and returns
  \<^verbatim>\<open>False\<close>: nothing is raised to the caller. This holds in the incremental and
  in the historical loader.
\<close>

theorem save_data_catches_write_errors:
  assumes "is_Exception e"
  shows "(to_sql_fault env df = Some e \<longrightarrow>
            save_data env df (Some eng) w
              = (Inr False, add_log ERROR (SavePgError (exn_str e)) w)
          \<and> save_data_hist env df (Some eng) w
              = (Inr False, add_log ERROR (SaveError (exn_str e)) w))
       \<and> (to_csv_fault env df = CsvOpenFails e \<longrightarrow>
            save_data env df None w
              = (Inr False, add_log ERROR (SaveCsvError (exn_str e)) w))
       \<and> (to_csv_fault env df = CsvWriteFails e k \<longrightarrow>
            save_data env df None w
              = (Inr False, add_log ERROR (SaveCsvError (exn_str e))
                   (w\<lparr>csv_file :=
                        Some (existing (csv_file w)
                              @ take k (csv_lines (csv_file w = None) df))\<rparr>)))"
  using assms
  by (simp add: save_data_def save_data_hist_def to_sql_def to_csv_def)

theorem save_data_catches_write_errors_witness:
  "is_Exception (Raise OperationalError ''server closed the connection'')
   \<and> save_data (demo_env\<lparr>to_sql_fault := \<lambda>df. Some (Raise OperationalError ''server closed the connection'')\<rparr>)
        provider_frame (Some Engine) fresh_world
       = (Inr False, add_log ERROR (SavePgError ''server closed the connection'') fresh_world)
   \<and> save_data_hist (demo_env\<lparr>to_sql_fault := \<lambda>df. Some (Raise OperationalError ''server closed the connection'')\<rparr>)
        provider_frame (Some Engine) fresh_world
       = (Inr False, add_log ERROR (SaveError ''server closed the connection'') fresh_world)
   \<and> save_data (demo_env\<lparr>to_csv_fault := \<lambda>df. CsvOpenFails (Raise OSError ''Permission denied'')\<rparr>)
        provider_frame None fresh_world
       = (Inr False, add_log ERROR (SaveCsvError ''Permission denied'') fresh_world)
   \<and> save_data (demo_env\<lparr>to_csv_fault := \<lambda>df. CsvWriteFails (Raise OSError ''No space left on device'') 1\<rparr>)
        provider_frame None fresh_world
       = (Inr False, add_log ERROR (SaveCsvError ''No space left on device'')
            (fresh_world\<lparr>csv_file :=
               Some [Header [''NumCode'', ''CharCode'', ''Nominal'', ''Name'', ''Value'']]\<rparr>))"
proof -
  let ?a = "Raise OperationalError ''server closed the connection''"
  let ?b = "Raise OSError ''Permission denied''"
  let ?c = "Raise OSError ''No space left on device''"
  have a: "is_Exception ?a" and b: "is_Exception ?b" and c: "is_Exception ?c"
    by simp_all
  show ?thesis
    using
      save_data_catches_write_errors [OF a,
        of "demo_env\<lparr>to_sql_fault := \<lambda>df. Some ?a\<rparr>" provider_frame Engine fresh_world]
      save_data_catches_write_errors [OF b,
        of "demo_env\<lparr>to_csv_fault := \<lambda>df. CsvOpenFails ?b\<rparr>" provider_frame Engine fresh_world]
      save_data_catches_write_errors [OF c,
        of "demo_env\<lparr>to_csv_fault := \<lambda>df. CsvWriteFails ?c 1\<rparr>" provider_frame Engine
          fresh_world 1]
    by (simp add: demo_env_def fresh_world_def existing_def csv_lines_def provider_frame_def)
qed

section \<open>The watermark\<close>

lemma sql_max_is_maximum:
  assumes "ds \<noteq> []"
  shows "\<exists>m. sql_max ds = Some m \<and> m \<in> set ds \<and> (\<forall>d \<in> set ds. d \<le> m)"
proof -
  have fin: "finite (set ds)" and ne: "set ds \<noteq> {}"
    using assms by simp_all
  have "Max (set ds) \<in> set ds"
    using fin ne by (rule Max_in)
  moreover have "\<forall>d \<in> set ds. d \<le> Max (set ds)"
    using fin by simp
  ultimately show ?thesis
    using assms by (simp add: sql_max_def)
qed

text \<open>The aggregate query fails when the environment says so or the relation is missing.\<close>

lemma max_date_query_fails_iff:
  "max_date_query env w = Inl e \<longleftrightarrow>
     db_query_fault env = Some e
     \<or> db_query_fault env = None \<and> table w = None
        \<and> e = Raise ProgrammingError ''relation public.currency_rates does not exist''"
  by (auto simp: max_date_query_def split: option.splits)

text \<open>
  Claim C4. \<^verbatim>\<open>get_last_loaded_date\<close> returns the greatest date among the persisted
  rows, as computed by the aggregate query over the date column. When the table has no
  dated row (the aggregate is null), or the query raises an exception of class
  \<^verbatim>\<open>Exception\<close>, or there is no engine at all, it returns today minus one day.
\<close>

theorem last_loaded_date_spec:
  shows "(db_query_fault env = None \<and> table w = Some rs \<and> persisted_dates rs \<noteq> [] \<longrightarrow>
            (\<exists>m. get_last_loaded_date env (Some eng) w = (Inr m, w)
                \<and> m \<in> set (persisted_dates rs)
                \<and> (\<forall>d \<in> set (persisted_dates rs). d \<le> m)))
       \<and> (db_query_fault env = None \<and> table w = Some rs \<and> persisted_dates rs = [] \<longrightarrow>
            get_last_loaded_date env (Some eng) w = (Inr (today env - 1), w))
       \<and> (max_date_query env w = Inl e \<and> is_Exception e \<longrightarrow>
            get_last_loaded_date env (Some eng) w
              = (Inr (today env - 1), add_log ERROR (LastDateError (exn_str e)) w))
       \<and> get_last_loaded_date env None w
              = (Inr (today env - 1),
                 add_log ERROR (LastDateError ''NoneType object has no attribute connect'') w)"
proof (intro conjI impI)
  assume a: "db_query_fault env = None \<and> table w = Some rs \<and> persisted_dates rs \<noteq> []"
  then obtain m where m: "sql_max (persisted_dates rs) = Some m"
      "m \<in> set (persisted_dates rs)" "\<forall>d \<in> set (persisted_dates rs). d \<le> m"
    using sql_max_is_maximum by blast
  with a have "get_last_loaded_date env (Some eng) w = (Inr m, w)"
    by (simp add: get_last_loaded_date_def max_date_query_def)
  with m show "\<exists>m. get_last_loaded_date env (Some eng) w = (Inr m, w)
                \<and> m \<in> set (persisted_dates rs)
                \<and> (\<forall>d \<in> set (persisted_dates rs). d \<le> m)"
    by blast
next
  assume "db_query_fault env = None \<and> table w = Some rs \<and> persisted_dates rs = []"
  then show "get_last_loaded_date env (Some eng) w = (Inr (today env - 1), w)"
    by (simp add: get_last_loaded_date_def max_date_query_def sql_max_def)
next
  assume "max_date_query env w = Inl e \<and> is_Exception e"
  then show "get_last_loaded_date env (Some eng) w
              = (Inr (today env - 1), add_log ERROR (LastDateError (exn_str e)) w)"
    by (simp add: get_last_loaded_date_def)
next
  show "get_last_loaded_date env None w
              = (Inr (today env - 1),
                 add_log ERROR (LastDateError ''NoneType object has no attribute connect'') w)"
    by (simp add: get_last_loaded_date_def)
qed

theorem last_loaded_date_spec_witness:
  "get_last_loaded_date demo_env (Some Engine)
      (fresh_world\<lparr>table := Some [usd_row 738944, usd_row 738945, usd_row 738943]\<rparr>)
     = (Inr 738945, fresh_world\<lparr>table := Some [usd_row 738944, usd_row 738945, usd_row 738943]\<rparr>)
   \<and> get_last_loaded_date demo_env (Some Engine) (fresh_world\<lparr>table := Some []\<rparr>)
     = (Inr 738945, fresh_world\<lparr>table := Some []\<rparr>)
   \<and> get_last_loaded_date (demo_env\<lparr>db_query_fault := Some (Raise OperationalError ''timeout'')\<rparr>)
        (Some Engine) fresh_world
     = (Inr 738945, add_log ERROR (LastDateError ''timeout'') fresh_world)"
proof -
  let ?w = "fresh_world\<lparr>table := Some [usd_row 738944, usd_row 738945, usd_row 738943]\<rparr>"
  let ?rs = "[usd_row 738944, usd_row 738945, usd_row 738943]"
  let ?env = "demo_env\<lparr>db_query_fault := Some (Raise OperationalError ''timeout'')\<rparr>"
  have pd: "persisted_dates ?rs = [738944, 738945, 738943]"
    by (simp add: persisted_dates_def List.map_filter_simps date_of_row_def usd_row_def)
  have 1: "db_query_fault demo_env = None \<and> table ?w = Some ?rs \<and> persisted_dates ?rs \<noteq> []"
    by (simp add: demo_env_def pd)
  have 2: "db_query_fault demo_env = None \<and> table (fresh_world\<lparr>table := Some []\<rparr>) = Some []
      \<and> persisted_dates ([] :: rat row list) = []"
    by (simp add: demo_env_def persisted_dates_def List.map_filter_simps)
  have 3: "max_date_query ?env fresh_world = Inl (Raise OperationalError ''timeout'')
      \<and> is_Exception (Raise OperationalError ''timeout'')"
    by (simp add: max_date_query_def demo_env_def)
  from last_loaded_date_spec [of demo_env ?w ?rs Engine] 1
  obtain m where m: "get_last_loaded_date demo_env (Some Engine) ?w = (Inr m, ?w)"
      "m \<in> set (persisted_dates ?rs)" "\<forall>d \<in> set (persisted_dates ?rs). d \<le> m"
    by blast
  from m(2,3) have "m = 738945"
    unfolding pd by auto
  with m(1) have "get_last_loaded_date demo_env (Some Engine) ?w = (Inr 738945, ?w)"
    by simp
  moreover from last_loaded_date_spec [of demo_env "fresh_world\<lparr>table := Some []\<rparr>" "[]" Engine] 2
  have "get_last_loaded_date demo_env (Some Engine) (fresh_world\<lparr>table := Some []\<rparr>)
     = (Inr 738945, fresh_world\<lparr>table := Some []\<rparr>)"
    by (simp add: demo_env_def)
  moreover from last_loaded_date_spec [of ?env fresh_world _ Engine "Raise OperationalError ''timeout''"] 3
  have "get_last_loaded_date ?env (Some Engine) fresh_world
     = (Inr 738945, add_log ERROR (LastDateError ''timeout'') fresh_world)"
    by (simp add: demo_env_def)
  ultimately show ?thesis by simp
qed

section \<open>A valid provider response\<close>

text \<open>Columns of a frame after assignments, renaming and selection.\<close>

lemma map_of_replace_col:
  "map_of (map (\<lambda>(k, old). if k = l then (k, cs) else (k, old)) df) k
     = (if k = l then map_option (\<lambda>old. cs) (map_of df l) else map_of df k)"
  by (induction df) auto

lemma map_of_set_col:
  "map_of (set_col l cs df) k = (if k = l then Some cs else map_of df k)"
proof (cases "l \<in> set (map fst df)")
  case True
  then obtain old where "map_of df l = Some old"
    by (metis map_of_eq_None_iff not_Some_eq set_map)
  with True show ?thesis
    by (simp add: set_col_def map_of_replace_col)
next
  case False
  then have "map_of df l = None"
    by (simp add: map_of_eq_None_iff)
  with False show ?thesis
    by (auto simp: set_col_def map_add_def split: option.splits)
qed

lemma labels_set_col:
  "map fst (set_col l cs df) = (if l \<in> set (map fst df) then map fst df else map fst df @ [l])"
proof -
  have "map fst (map (\<lambda>(k, old). if k = l then (k, cs) else (k, old)) df) = map fst df"
    by (induction df) auto
  then show ?thesis by (simp add: set_col_def)
qed

lemma filter_label_unique:
  assumes "distinct (map fst df)" and "map_of df l = Some cs"
  shows "filter (\<lambda>(k, c). k = l) df = [(l, cs)]"
  using assms
proof (induction df)
  case Nil
  then show ?case by simp
next
  case (Cons p df)
  obtain k c where p: "p = (k, c)" by (cases p)
  show ?case
  proof (cases "k = l")
    case True
    with Cons.prems p have "l \<notin> fst ` set df" and "c = cs" by auto
    then have "\<forall>q \<in> set df. fst q \<noteq> l"
      by (metis imageI)
    then have "filter (\<lambda>(k, c). k = l) df = []"
      by (simp add: filter_empty_conv case_prod_unfold)
    with True p \<open>c = cs\<close> show ?thesis by simp
  next
    case False
    with Cons p show ?thesis by simp
  qed
qed

lemma rename_columns_Cons:
  "rename_columns ((k, c) # df) = (rename_label k, c) # rename_columns df"
  by (simp add: rename_columns_def)

lemma rename_label_cases:
  obtains (code) "k = ''CharCode''" "rename_label k = ''CurrencyCode''"
  | (name) "k = ''Name''" "rename_label k = ''CurrencyName''"
  | (other) "k \<noteq> ''CharCode''" "k \<noteq> ''Name''" "rename_label k = k"
  by (cases "k = ''CharCode''"; cases "k = ''Name''") (simp_all add: rename_label_def)

lemma map_of_rename_other:
  assumes "t \<noteq> ''CurrencyCode''" "t \<noteq> ''CurrencyName''" "t \<noteq> ''CharCode''" "t \<noteq> ''Name''"
  shows "map_of (rename_columns df) t = map_of df t"
proof (induction df)
  case Nil
  then show ?case by (simp add: rename_columns_def)
next
  case (Cons p df)
  obtain k c where p: "p = (k, c)" by (cases p)
  show ?case
  proof (cases k rule: rename_label_cases)
    case code
    with assms Cons.IH show ?thesis
      unfolding p rename_columns_Cons by simp
  next
    case name
    with assms Cons.IH show ?thesis
      unfolding p rename_columns_Cons by simp
  next
    case other
    with assms Cons.IH show ?thesis
      unfolding p rename_columns_Cons by simp
  qed
qed

lemma map_of_rename_code:
  assumes "''CurrencyCode'' \<notin> set (map fst df)"
  shows "map_of (rename_columns df) ''CurrencyCode'' = map_of df ''CharCode''"
  using assms
proof (induction df)
  case Nil
  then show ?case by (simp add: rename_columns_def)
next
  case (Cons p df)
  obtain k c where p: "p = (k, c)" by (cases p)
  from Cons.prems p have k: "k \<noteq> ''CurrencyCode''" and rest: "''CurrencyCode'' \<notin> set (map fst df)"
    by auto
  note ih = Cons.IH [OF rest]
  show ?case
  proof (cases k rule: rename_label_cases)
    case code
    then show ?thesis
      unfolding p rename_columns_Cons by simp
  next
    case name
    with ih show ?thesis
      unfolding p rename_columns_Cons by simp
  next
    case other
    with ih k show ?thesis
      unfolding p rename_columns_Cons by simp
  qed
qed

lemma map_of_rename_name:
  assumes "''CurrencyName'' \<notin> set (map fst df)"
  shows "map_of (rename_columns df) ''CurrencyName'' = map_of df ''Name''"
  using assms
proof (induction df)
  case Nil
  then show ?case by (simp add: rename_columns_def)
next
  case (Cons p df)
  obtain k c where p: "p = (k, c)" by (cases p)
  from Cons.prems p have k: "k \<noteq> ''CurrencyName''" and rest: "''CurrencyName'' \<notin> set (map fst df)"
    by auto
  note ih = Cons.IH [OF rest]
  show ?case
  proof (cases k rule: rename_label_cases)
    case code
    with ih show ?thesis
      unfolding p rename_columns_Cons by simp
  next
    case name
    then show ?thesis
      unfolding p rename_columns_Cons by simp
  next
    case other
    with ih k show ?thesis
      unfolding p rename_columns_Cons by simp
  qed
qed

lemma labels_rename: "map fst (rename_columns df) = map rename_label (map fst df)"
  by (induction df) (auto simp: rename_columns_def)

lemma distinct_rename:
  assumes "distinct (map fst df)"
    and "''CurrencyCode'' \<notin> set (map fst df)" and "''CurrencyName'' \<notin> set (map fst df)"
  shows "distinct (map fst (rename_columns df))"
proof -
  have "inj_on rename_label (set (map fst df))"
  proof (rule inj_onI)
    fix a b
    assume a: "a \<in> set (map fst df)" and b: "b \<in> set (map fst df)"
      and eq: "rename_label a = rename_label b"
    from a b assms(2,3) have "a \<noteq> ''CurrencyCode''" "a \<noteq> ''CurrencyName''"
        "b \<noteq> ''CurrencyCode''" "b \<noteq> ''CurrencyName''"
      by blast+
    with eq show "a = b"
      by (simp add: rename_label_def split: if_splits)
  qed
  with assms(1) have "distinct (map rename_label (map fst df))"
    by (simp only: distinct_map) 
  then show ?thesis
    by (simp only: labels_rename)
qed

lemma cast_all_Inr:
  "map f cs = map Inr ds \<Longrightarrow> cast_all f cs = Inr ds"
proof (induction cs arbitrary: ds)
  case Nil
  then show ?case by simp
next
  case (Cons c cs)
  then obtain d ds' where ds: "ds = d # ds'" by (cases ds) auto
  with Cons.prems have "f c = Inr d" and "map f cs = map Inr ds'" by simp_all
  with Cons.IH [of ds'] ds show ?case by (simp add: and_then_def)
qed


lemma label_set_set_col:
  "set (map fst (set_col l cs df)) = insert l (set (map fst df))"
  by (auto simp: labels_set_col)

lemma distinct_set_col:
  "distinct (map fst df) \<Longrightarrow> distinct (map fst (set_col l cs df))"
  by (simp add: labels_set_col)

lemma astype_float_strings:
  assumes "map (\<lambda>v. float_of_str env (replace_comma v)) vs = map Some fs"
  shows "astype_float env (map (\<lambda>v. CStr (replace_comma v)) vs) = Inr (map CFloat fs)"
proof -
  have "map (float_cell env) (map (\<lambda>v. CStr (replace_comma v)) vs) = map Inr (map CFloat fs)"
    using assms
  proof (induction vs arbitrary: fs)
    case Nil
    then show ?case by simp
  next
    case (Cons v vs)
    then obtain f fs' where fs: "fs = f # fs'" by (cases fs) auto
    with Cons.prems have "float_of_str env (replace_comma v) = Some f"
      and "map (\<lambda>v. float_of_str env (replace_comma v)) vs = map Some fs'"
      by simp_all
    with Cons.IH [of fs'] fs show ?case
      by (simp add: float_cell_def)
  qed
  then have "cast_all (float_cell env) (map (\<lambda>v. CStr (replace_comma v)) vs)
      = Inr (map CFloat fs)"
    by (rule cast_all_Inr)
  then show ?thesis
    by (simp add: astype_float_def)
qed

lemma str_replace_comma_strings:
  "str_replace_comma (map CStr vs) = Inr (map (\<lambda>v. CStr (replace_comma v)) vs)"
  by (cases vs) (simp_all add: str_replace_comma_def)

lemma and_then_Inr: "and_then (Inr x) k = k x"
  by (simp add: and_then_def)

lemma col_truediv_any:
  "col_truediv env (map CFloat fs) (map CInt ns)
           = Inr (map CFloat (map2 (truediv env) fs ns))"
proof -
  have "map (div_cell env) (zip (map CFloat fs) (map CInt ns))
      = map Inr (map CFloat (map2 (truediv env) fs ns))"
    by (induction fs arbitrary: ns) (simp, case_tac ns, simp_all)
  then show ?thesis
    unfolding col_truediv_def by (rule cast_all_Inr)
qed

text \<open>
  The coercion of the Nominal column: integers that fit int64 are kept, and strings are
  read as integers.
\<close>

lemma astype_int_coerced:
  assumes "list_all2
             (\<lambda>c n. (c = CInt n \<or> (\<exists>s. c = CStr s \<and> int_of_str env s = Some n)) \<and> in_int64 n)
             ncol ns"
  shows "astype_int env ncol = Inr (map CInt ns)"
proof -
  from assms have "map (int_cell env) ncol = map Inr (map CInt ns)"
    by (induction ncol ns rule: list_all2_induct) (auto simp: int_cell_def)
  then show ?thesis
    unfolding astype_int_def by (rule cast_all_Inr)
qed

text \<open>
  At the edge of int64: \<^verbatim>\<open>2**63\<close> wraps to \<^verbatim>\<open>-2**63\<close>, \<^verbatim>\<open>2**64\<close> raises, and so does
  a string that reads as \<^verbatim>\<open>2**63\<close>; the fetch of such a day hands back the empty frame.
\<close>

lemma int_cell_edges:
  "int_cell env (CInt (2 ^ 63 - 1)) = Inr (CInt (2 ^ 63 - 1))"
  "int_cell env (CInt (2 ^ 63)) = Inr (CInt (- (2 ^ 63)))"
  "int_cell env (CInt (2 ^ 64)) = Inl too_large"
  "int_of_str env s = Some (2 ^ 63) \<Longrightarrow> int_cell env (CStr s) = Inl too_large"
  by (simp_all add: int_cell_def in_int64_def)

lemma huge_nominal_drops_the_day:
  "get_cbr_rates
     (demo_env\<lparr>read_xml := \<lambda>s. Inr [(''CharCode'', [CStr ''USD'']), (''Nominal'', [CInt (2 ^ 64)]),
                                     (''Name'', [CStr ''US Dollar'']), (''Value'', [CStr ''90,50''])]\<rparr>)
     (Some 738946) fresh_world
   = (Inr [], add_log ERROR (FetchError ''Python int too large to convert to C long'') fresh_world)"
  by (simp add: get_cbr_rates_def fetch_body_def demo_env_def raise_for_status_def frame_ops
      too_large_def)

text \<open>A Value that is missing from the document stays NaN, and so does its Rate.\<close>

lemma missing_value_stays_nan:
  "process_frame demo_env d
     [(''CharCode'', [CStr ''USD'', CStr ''JPY'']), (''Nominal'', [CInt 1, CInt 100]),
      (''Name'', [CStr ''US Dollar'', CStr ''Yen'']), (''Value'', [CStr ''90,50'', CNaN])]
   = Inr [(''Date'', [CDate d, CDate d]), (''CurrencyCode'', [CStr ''USD'', CStr ''JPY'']),
          (''CurrencyName'', [CStr ''US Dollar'', CStr ''Yen'']),
          (''Nominal'', [CInt 1, CInt 100]), (''Value'', [CFloat (181 / 2), CNaN]),
          (''Rate'', [CFloat (181 / 2), CNaN])]"
  by (simp add: demo_env_def frame_ops numeral_2_eq_2)

lemma process_frame_valid:
  assumes dist: "distinct (map fst df)"
    and nocode: "''CurrencyCode'' \<notin> set (map fst df)"
    and noname: "''CurrencyName'' \<notin> set (map fst df)"
    and code: "map_of df ''CharCode'' = Some cc"
    and name: "map_of df ''Name'' = Some nm"
    and nominal: "map_of df ''Nominal'' = Some ncol"
    and val: "map_of df ''Value'' = Some (map CStr vs)"
    and floats: "map (\<lambda>v. float_of_str env (replace_comma v)) vs = map Some fs"
    and coerced: "list_all2
             (\<lambda>c n. (c = CInt n \<or> (\<exists>s. c = CStr s \<and> int_of_str env s = Some n)) \<and> in_int64 n)
             ncol ns"
  shows "process_frame env d df =
     Inr [(''Date'', replicate (nrows df) (CDate d)), (''CurrencyCode'', cc),
          (''CurrencyName'', nm), (''Nominal'', map CInt ns), (''Value'', map CFloat fs),
          (''Rate'', map CFloat (map2 (truediv env) fs ns))]"
proof -
  note ints = astype_int_coerced [OF coerced]
  define df1 where "df1 = set_col ''Date'' (replicate (nrows df) (CDate d)) df"
  define df2 where "df2 = set_col ''Value'' (map CFloat fs) df1"
  define df3 where "df3 = set_col ''Nominal'' (map CInt ns) df2"
  define df4 where "df4 = set_col ''Rate'' (map CFloat (map2 (truediv env) fs ns)) df3"
  have v1: "get_col ''Value'' df1 = Inr (map CStr vs)"
    by (simp add: get_col_def df1_def map_of_set_col val)
  have n2: "get_col ''Nominal'' df2 = Inr ncol"
    by (simp add: get_col_def df2_def df1_def map_of_set_col nominal)
  have v3: "get_col ''Value'' df3 = Inr (map CFloat fs)"
    by (simp add: get_col_def df3_def df2_def map_of_set_col)
  have n3: "get_col ''Nominal'' df3 = Inr (map CInt ns)"
    by (simp add: get_col_def df3_def map_of_set_col)
  have labels4: "set (map fst df4) = {''Rate'', ''Nominal'', ''Value'', ''Date''} \<union> set (map fst df)"
    by (simp only: df4_def df3_def df2_def df1_def label_set_set_col) auto
  have dist4: "distinct (map fst df4)"
    unfolding df4_def df3_def df2_def df1_def
    by (intro distinct_set_col dist)
  have nocode4: "''CurrencyCode'' \<notin> set (map fst df4)"
    and noname4: "''CurrencyName'' \<notin> set (map fst df4)"
    using nocode noname unfolding labels4 by simp_all
  have distr: "distinct (map fst (rename_columns df4))"
    using dist4 nocode4 noname4 by (rule distinct_rename)
  have m4: "map_of df4 ''Date'' = Some (replicate (nrows df) (CDate d))"
    "map_of df4 ''CharCode'' = Some cc" "map_of df4 ''Name'' = Some nm"
    "map_of df4 ''Nominal'' = Some (map CInt ns)" "map_of df4 ''Value'' = Some (map CFloat fs)"
    "map_of df4 ''Rate'' = Some (map CFloat (map2 (truediv env) fs ns))"
    by (simp_all add: df4_def df3_def df2_def df1_def map_of_set_col code name)
  have r: "map_of (rename_columns df4) ''Date'' = Some (replicate (nrows df) (CDate d))"
    "map_of (rename_columns df4) ''CurrencyCode'' = Some cc"
    "map_of (rename_columns df4) ''CurrencyName'' = Some nm"
    "map_of (rename_columns df4) ''Nominal'' = Some (map CInt ns)"
    "map_of (rename_columns df4) ''Value'' = Some (map CFloat fs)"
    "map_of (rename_columns df4) ''Rate'' = Some (map CFloat (map2 (truediv env) fs ns))"
    using m4 by (simp_all add: map_of_rename_other map_of_rename_code [OF nocode4]
        map_of_rename_name [OF noname4])
  have sel: "select_columns output_columns (rename_columns df4) =
     Inr [(''Date'', replicate (nrows df) (CDate d)), (''CurrencyCode'', cc),
          (''CurrencyName'', nm), (''Nominal'', map CInt ns), (''Value'', map CFloat fs),
          (''Rate'', map CFloat (map2 (truediv env) fs ns))]"
    by (simp add: output_columns_def filter_label_unique [OF distr] r and_then_def)
  show ?thesis
    unfolding process_frame_def Let_def
    by (simp only: df1_def [symmetric] v1 and_then_Inr str_replace_comma_strings
        astype_float_strings [OF floats] df2_def [symmetric] n2 ints df3_def [symmetric] v3 n3
        col_truediv_any df4_def [symmetric] sel)
qed

text \<open>
  Claim C1. For a valid provider response (the request succeeds with a success status, the
  document parses to a frame with distinct labels that has the columns CharCode, Name,
  Nominal and Value and does not yet use the two canonical names, every Value is a string
  that is a number once its commas are dots, and every Nominal is an integer, or a string
  that reads as an integer, within int64), the fetch of either loader returns exactly six
  columns, in the order Date, CurrencyCode, CurrencyName, Nominal, Value, Rate: Date is
  the requested date on every row, CurrencyCode and CurrencyName are the provider's
  CharCode and Name, Nominal holds the integers, Value the floats parsed after the comma
  was replaced, and Rate is Value divided by Nominal, row by row. Nothing is logged.
\<close>

theorem get_cbr_rates_valid_response:
  assumes "requests_get env d = Inr r"
    and "raise_for_status r = Inr ()"
    and "read_xml env (body r) = Inr df"
    and "distinct (map fst df)"
    and "''CurrencyCode'' \<notin> set (map fst df)"
    and "''CurrencyName'' \<notin> set (map fst df)"
    and "map_of df ''CharCode'' = Some cc"
    and "map_of df ''Name'' = Some nm"
    and "map_of df ''Nominal'' = Some ncol"
    and "map_of df ''Value'' = Some (map CStr vs)"
    and "map (\<lambda>v. float_of_str env (replace_comma v)) vs = map Some fs"
    and "list_all2
           (\<lambda>c n. (c = CInt n \<or> (\<exists>s. c = CStr s \<and> int_of_str env s = Some n))
                  \<and> - (2 ^ 63) \<le> n \<and> n < 2 ^ 63)
           ncol ns"
  shows "get_cbr_rates env (Some d) w =
           (Inr [(''Date'', replicate (nrows df) (CDate d)), (''CurrencyCode'', cc),
                 (''CurrencyName'', nm), (''Nominal'', map CInt ns),
                 (''Value'', map CFloat fs),
                 (''Rate'', map CFloat (map2 (truediv env) fs ns))], w)
       \<and> get_cbr_rates_hist env d w =
           (Inr [(''Date'', replicate (nrows df) (CDate d)), (''CurrencyCode'', cc),
                 (''CurrencyName'', nm), (''Nominal'', map CInt ns),
                 (''Value'', map CFloat fs),
                 (''Rate'', map CFloat (map2 (truediv env) fs ns))], w)"
proof -
  have "fetch_body env d = process_frame env d df"
    using assms(1-3) by (simp add: fetch_body_def and_then_Inr)
  also have "\<dots> = Inr [(''Date'', replicate (nrows df) (CDate d)), (''CurrencyCode'', cc),
                 (''CurrencyName'', nm), (''Nominal'', map CInt ns),
                 (''Value'', map CFloat fs),
                 (''Rate'', map CFloat (map2 (truediv env) fs ns))]"
    using assms(4-11) assms(12) [folded in_int64_def] by (rule process_frame_valid)
  finally show ?thesis
    by (simp add: get_cbr_rates_def get_cbr_rates_hist_def)
qed

theorem get_cbr_rates_valid_response_witness:
  "get_cbr_rates (demo_env\<lparr>read_xml := \<lambda>s. Inr listed_frame\<rparr>) (Some 738946) fresh_world =
     (Inr [(''Date'', [CDate 738946, CDate 738946]),
           (''CurrencyCode'', [CStr ''USD'', CStr ''JPY'']),
           (''CurrencyName'', [CStr ''US Dollar'', CStr ''Yen'']),
           (''Nominal'', [CInt 1, CInt 100]),
           (''Value'', [CFloat (181 / 2), CFloat (121 / 2)]),
           (''Rate'', [CFloat (181 / 2), CFloat (121 / 200)])], fresh_world)
   \<and> get_cbr_rates_hist (demo_env\<lparr>read_xml := \<lambda>s. Inr listed_frame\<rparr>) 738946 fresh_world =
     (Inr [(''Date'', [CDate 738946, CDate 738946]),
           (''CurrencyCode'', [CStr ''USD'', CStr ''JPY'']),
           (''CurrencyName'', [CStr ''US Dollar'', CStr ''Yen'']),
           (''Nominal'', [CInt 1, CInt 100]),
           (''Value'', [CFloat (181 / 2), CFloat (121 / 2)]),
           (''Rate'', [CFloat (181 / 2), CFloat (121 / 200)])], fresh_world)"
proof -
  let ?env = "demo_env\<lparr>read_xml := \<lambda>s. Inr listed_frame\<rparr>"
  let ?r = "\<lparr>status_code = 200, body = ''doc''\<rparr>"
  have 1: "requests_get ?env 738946 = Inr ?r"
    and 2: "raise_for_status ?r = Inr ()"
    and 3: "read_xml ?env (body ?r) = Inr listed_frame"
    by (simp_all add: demo_env_def raise_for_status_def)
  have 4: "distinct (map fst listed_frame)"
    and 5: "''CurrencyCode'' \<notin> set (map fst listed_frame)"
    and 6: "''CurrencyName'' \<notin> set (map fst listed_frame)"
    and 7: "map_of listed_frame ''CharCode'' = Some [CStr ''USD'', CStr ''JPY'']"
    and 8: "map_of listed_frame ''Name'' = Some [CStr ''US Dollar'', CStr ''Yen'']"
    and 9: "map_of listed_frame ''Nominal'' = Some [CStr ''1'', CStr ''100'']"
    and 10: "map_of listed_frame ''Value'' = Some (map CStr [''90,50'', ''60,50''])"
    by (simp_all add: listed_frame_def)
  have 11: "map (\<lambda>v. float_of_str ?env (replace_comma v)) [''90,50'', ''60,50'']
      = map Some [181 / 2, 121 / 2]"
    by (simp add: demo_env_def replace_comma_def)
  have 12: "list_all2
           (\<lambda>c n. (c = CInt n \<or> (\<exists>s. c = CStr s \<and> int_of_str ?env s = Some n))
                  \<and> - (2 ^ 63) \<le> n \<and> n < 2 ^ 63)
           [CStr ''1'', CStr ''100''] [1, 100]"
    by (simp add: demo_env_def)
  have n: "nrows listed_frame = 2"
    by (simp add: listed_frame_def nrows_def)
  show ?thesis
    using get_cbr_rates_valid_response [OF 1 2 3 4 5 6 7 8 9 10 11 12, of fresh_world]
    by (simp add: n demo_env_def numeral_2_eq_2)
qed

section \<open>The incremental plan and the empty runs\<close>

lemma add_log_frame [simp]:
  "table (add_log lv m w) = table w" "csv_file (add_log lv m w) = csv_file w"
  "logged (add_log lv m w) = logged w @ [(lv, m)]"
  by (simp_all add: add_log_def)

lemma same_store_refl [simp]: "same_store w w"
  by (simp add: same_store_def)

lemma same_store_trans: "same_store a b \<Longrightarrow> same_store b c \<Longrightarrow> same_store a c"
  by (simp add: same_store_def)

lemma same_store_add_log:
  "\<not> is_save_record (lv, m) \<Longrightarrow> same_store w (add_log lv m w)"
  by (simp add: same_store_def)

lemma get_db_engine_same_store:
  assumes "get_db_engine env w = (r, w')"
  shows "same_store w w'"
  using assms
  by (auto simp: get_db_engine_def same_store_def is_save_record_def
      split: option.splits exn.splits if_splits)

lemma get_last_loaded_date_same_store:
  assumes "get_last_loaded_date env eng w = (r, w')"
  shows "same_store w w'"
  using assms
  by (auto simp: get_last_loaded_date_def same_store_def is_save_record_def
      split: option.splits sum.splits if_splits)

lemma resolve_watermark_same_store:
  assumes "resolve_watermark env eng w = (r, w')"
  shows "same_store w w'"
  using assms get_last_loaded_date_same_store [of env eng w r w']
  by (auto simp: resolve_watermark_def split: if_splits)

lemma get_cbr_rates_same_store:
  assumes "get_cbr_rates env dr w = (r, w')"
  shows "same_store w w'"
  using assms
  by (auto simp: get_cbr_rates_def Let_def same_store_def is_save_record_def
      split: sum.splits if_splits)

lemma upto_sorted_distinct:
  "set (date_range a b) = {a..b} \<and> sorted (date_range a b) \<and> distinct (date_range a b)"
  by (simp add: date_range_def)

lemma date_range_empty: "b < a \<Longrightarrow> date_range a b = []"
  by (simp add: date_range_def)

lemma date_range_nth:
  "date_range a b = map (\<lambda>k. a + int k) [0..<nat (b - a + 1)]"
  unfolding date_range_def
  by (rule nth_equalityI) simp_all


lemma get_cbr_rates_fetched:
  assumes "catchable (fetch_body env d)"
  shows "\<exists>w'. get_cbr_rates env (Some d) w = (Inr (fetched env d), w') \<and> same_store w w'"
  using assms
  by (auto simp: get_cbr_rates_def fetched_def catchable_def same_store_def is_save_record_def
      split: sum.splits)

lemma fetch_loop_collects:
  assumes "\<forall>d \<in> set ds. catchable (fetch_body env d)"
  shows "\<exists>w'. fetch_loop env ds acc w
            = (Inr (acc @ filter (\<lambda>df. \<not> empty_frame df) (map (fetched env) ds)), w')
          \<and> same_store w w'"
  using assms
proof (induction ds arbitrary: acc w)
  case Nil
  then show ?case by simp
next
  case (Cons d ds)
  then have "catchable (fetch_body env d)" by simp
  then obtain w1 where w1: "get_cbr_rates env (Some d) w = (Inr (fetched env d), w1)"
      "same_store w w1"
    using get_cbr_rates_fetched by blast
  from Cons.prems have rest: "\<forall>d \<in> set ds. catchable (fetch_body env d)" by simp
  show ?case
  proof (cases "empty_frame (fetched env d)")
    case True
    from Cons.IH [OF rest, of acc w1] obtain w' where
      "fetch_loop env ds acc w1
         = (Inr (acc @ filter (\<lambda>df. \<not> empty_frame df) (map (fetched env) ds)), w')"
      "same_store w1 w'"
      by blast
    with w1 True show ?thesis
      by (auto intro: same_store_trans)
  next
    case False
    let ?w2 = "add_log INFO (Received d) w1"
    have s2: "same_store w1 ?w2"
      by (rule same_store_add_log) (simp add: is_save_record_def)
    from Cons.IH [OF rest, of "acc @ [fetched env d]" ?w2] obtain w' where
      "fetch_loop env ds (acc @ [fetched env d]) ?w2
         = (Inr ((acc @ [fetched env d])
              @ filter (\<lambda>df. \<not> empty_frame df) (map (fetched env) ds)), w')"
      "same_store ?w2 w'"
      by blast
    with w1 False s2 show ?thesis
      by (auto intro: same_store_trans)
  qed
qed


lemma plan_keeps_store:
  assumes "get_db_engine env w0 = (Inr eng, w1)"
    and "resolve_watermark env eng
           (if eng = None then add_log ERROR NoDbUsingBackup w1 else w1) = (Inr wm, w3)"
  shows "same_store w0 w3"
proof -
  let ?w2 = "if eng = None then add_log ERROR NoDbUsingBackup w1 else w1"
  have "same_store w0 w1"
    using assms(1) by (rule get_db_engine_same_store)
  moreover have "same_store w1 ?w2"
    by (simp add: same_store_add_log is_save_record_def)
  moreover have "same_store ?w2 w3"
    using assms(2) by (rule resolve_watermark_same_store)
  ultimately show "same_store w0 w3"
    by (blast intro: same_store_trans)
qed

text \<open>
  Claim C5. In the incremental run, once the engine and the watermark are resolved, the
  loop runs over the days from the watermark plus one through today, both included, in
  ascending order. When the first day is after today the range is empty, and \<^verbatim>\<open>main\<close>
  returns normally after one informational record: the table and the fallback file are
  unchanged and no save was attempted.
\<close>

theorem incremental_plan:
  assumes "get_db_engine env w0 = (Inr eng, w1)"
    and "resolve_watermark env eng
           (if eng = None then add_log ERROR NoDbUsingBackup w1 else w1) = (Inr wm, w3)"
  shows "(wm + 1 \<le> today env \<longrightarrow>
            main_body env w0
              = finish_run env eng
                  (fetch_loop env (date_range (wm + 1) (today env)) []
                     (add_log INFO (Loading (wm + 1) (today env)) w3)))
       \<and> date_range (wm + 1) (today env)
            = map (\<lambda>k. wm + 1 + int k) [0..<nat (today env - wm)]
       \<and> set (date_range (wm + 1) (today env)) = {wm + 1..today env}
       \<and> sorted (date_range (wm + 1) (today env))
       \<and> distinct (date_range (wm + 1) (today env))
       \<and> (today env < wm + 1 \<longrightarrow>
            date_range (wm + 1) (today env) = []
            \<and> main env w0 = (Inr (), add_log INFO (NothingNew wm) w3)
            \<and> same_store w0 w3)"
proof (intro conjI impI)
  assume "wm + 1 \<le> today env"
  with assms show "main_body env w0
              = finish_run env eng
                  (fetch_loop env (date_range (wm + 1) (today env)) []
                     (add_log INFO (Loading (wm + 1) (today env)) w3))"
    by (simp add: main_body_def Let_def)
next
  show "date_range (wm + 1) (today env)
            = map (\<lambda>k. wm + 1 + int k) [0..<nat (today env - wm)]"
    by (simp add: date_range_nth)
next
  show "set (date_range (wm + 1) (today env)) = {wm + 1..today env}"
    by (simp add: date_range_def)
next
  show "sorted (date_range (wm + 1) (today env))"
    by (simp add: date_range_def)
next
  show "distinct (date_range (wm + 1) (today env))"
    by (simp add: date_range_def)
next
  assume "today env < wm + 1"
  then show "date_range (wm + 1) (today env) = []"
    by (simp add: date_range_def)
next
  assume "today env < wm + 1"
  with assms have "main_body env w0 = (Inr (), add_log INFO (NothingNew wm) w3)"
    by (simp add: main_body_def Let_def)
  then show "main env w0 = (Inr (), add_log INFO (NothingNew wm) w3)"
    by (simp add: main_def)
next
  show "same_store w0 w3"
    using assms by (rule plan_keeps_store)
qed

lemma save_data_leaves_record:
  assumes "save_data env df eng w = (Inr ok, w')"
  shows "length (filter is_save_record (logged w'))
           = Suc (length (filter is_save_record (logged w)))"
  using assms
  by (auto simp: save_data_def to_sql_def to_csv_def Let_def is_save_record_def
      split: option.splits sum.splits if_splits csv_fault.splits)

text \<open>
  Claim C10. In the incremental run, when the range is not empty and every fetch hands
  back an empty frame, \<^verbatim>\<open>main\<close> returns after the warning that there is nothing to
  save: the table and the fallback file are unchanged, and \<^verbatim>\<open>save_data\<close>, which
  would have left a record, was not called.
\<close>

theorem nothing_fetched_nothing_saved:
  assumes "get_db_engine env w0 = (Inr eng, w1)"
    and "resolve_watermark env eng
           (if eng = None then add_log ERROR NoDbUsingBackup w1 else w1) = (Inr wm, w3)"
    and "wm + 1 \<le> today env"
    and "\<forall>d \<in> set (date_range (wm + 1) (today env)).
           catchable (fetch_body env d) \<and> empty_frame (fetched env d)"
  shows "\<exists>w'. main env w0 = (Inr (), add_log WARNING NothingToSave w') \<and> same_store w0 w'"
proof -
  let ?w2 = "if eng = None then add_log ERROR NoDbUsingBackup w1 else w1"
  let ?w4 = "add_log INFO (Loading (wm + 1) (today env)) w3"
  let ?ds = "date_range (wm + 1) (today env)"
  have s03: "same_store w0 w3"
    using plan_keeps_store [OF assms(1,2)] .
  have s34: "same_store w3 ?w4"
    by (simp add: same_store_add_log is_save_record_def)
  from assms(4) have c: "\<forall>d \<in> set ?ds. catchable (fetch_body env d)" by simp
  from assms(4) have "filter (\<lambda>df. \<not> empty_frame df) (map (fetched env) ?ds) = []"
    by (simp add: filter_empty_conv)
  with fetch_loop_collects [OF c, of "[]" ?w4] obtain w5 where
    w5: "fetch_loop env ?ds [] ?w4 = (Inr [], w5)" "same_store ?w4 w5"
    by auto
  from assms(1-3) w5(1) have "main_body env w0 = (Inr (), add_log WARNING NothingToSave w5)"
    by (simp add: main_body_def Let_def finish_run_def)
  then have "main env w0 = (Inr (), add_log WARNING NothingToSave w5)"
    by (simp add: main_def)
  moreover have "same_store w0 w5"
    using s03 s34 w5(2) by (blast intro: same_store_trans)
  ultimately show ?thesis by blast
qed


lemmas watermark_eval =
  get_db_engine_def resolve_watermark_def get_last_loaded_date_def max_date_query_def
  persisted_dates_def List.map_filter_simps date_of_row_def usd_row_def sql_max_def
  demo_env_def fresh_world_def add_log_def

theorem incremental_plan_witness:
  "main (demo_env\<lparr>today := 738890\<rparr>) (fresh_world\<lparr>table := Some [usd_row 738890]\<rparr>)
     = (Inr (), add_log INFO (NothingNew 738890)
                  (add_log INFO ConnOk (fresh_world\<lparr>table := Some [usd_row 738890]\<rparr>)))
   \<and> date_range (738944 + 1) (today demo_env) = [738945, 738946]
   \<and> main_body demo_env (fresh_world\<lparr>table := Some [usd_row 738944]\<rparr>)
     = finish_run demo_env (Some Engine)
         (fetch_loop demo_env (date_range (738944 + 1) (today demo_env)) []
            (add_log INFO (Loading (738944 + 1) (today demo_env))
               (add_log INFO ConnOk (fresh_world\<lparr>table := Some [usd_row 738944]\<rparr>))))"
proof -
  let ?e1 = "demo_env\<lparr>today := 738890\<rparr>"
  let ?a = "fresh_world\<lparr>table := Some [usd_row 738890]\<rparr>"
  let ?b = "fresh_world\<lparr>table := Some [usd_row 738944]\<rparr>"
  have a1: "get_db_engine ?e1 ?a = (Inr (Some Engine), add_log INFO ConnOk ?a)"
    by (simp add: get_db_engine_def demo_env_def)
  have a2: "resolve_watermark ?e1 (Some Engine)
      (if Some Engine = None then add_log ERROR NoDbUsingBackup (add_log INFO ConnOk ?a)
       else add_log INFO ConnOk ?a) = (Inr 738890, add_log INFO ConnOk ?a)"
    by (simp add: watermark_eval)
  have a3: "today ?e1 < 738890 + 1"
    by (simp add: demo_env_def)
  have b1: "get_db_engine demo_env ?b = (Inr (Some Engine), add_log INFO ConnOk ?b)"
    by (simp add: get_db_engine_def demo_env_def)
  have b2: "resolve_watermark demo_env (Some Engine)
      (if Some Engine = None then add_log ERROR NoDbUsingBackup (add_log INFO ConnOk ?b)
       else add_log INFO ConnOk ?b) = (Inr 738944, add_log INFO ConnOk ?b)"
    by (simp add: watermark_eval)
  have b3: "738944 + 1 \<le> today demo_env"
    by (simp add: demo_env_def)
  have t: "[0..<nat (today demo_env - 738944)] = [0, 1]"
    by (simp add: demo_env_def upt_rec)
  from incremental_plan [OF a1 a2] a3
  have "main ?e1 ?a = (Inr (), add_log INFO (NothingNew 738890) (add_log INFO ConnOk ?a))"
    by blast
  moreover from incremental_plan [OF b1 b2] b3
  have "main_body demo_env ?b
     = finish_run demo_env (Some Engine)
         (fetch_loop demo_env (date_range (738944 + 1) (today demo_env)) []
            (add_log INFO (Loading (738944 + 1) (today demo_env)) (add_log INFO ConnOk ?b)))"
    and "date_range (738944 + 1) (today demo_env)
            = map (\<lambda>k. 738944 + 1 + int k) [0..<nat (today demo_env - 738944)]"
    by blast+
  ultimately show ?thesis
    by (simp add: t)
qed

theorem nothing_fetched_nothing_saved_witness:
  "738944 + 1 \<le> today demo_env
   \<and> (\<exists>w'. main (demo_env\<lparr>requests_get := \<lambda>d. Inl (Raise RequestException ''timed out'')\<rparr>)
              (fresh_world\<lparr>table := Some [usd_row 738944]\<rparr>)
            = (Inr (), add_log WARNING NothingToSave w')
          \<and> same_store (fresh_world\<lparr>table := Some [usd_row 738944]\<rparr>) w')"
proof -
  let ?env = "demo_env\<lparr>requests_get := \<lambda>d. Inl (Raise RequestException ''timed out'')\<rparr>"
  let ?b = "fresh_world\<lparr>table := Some [usd_row 738944]\<rparr>"
  have b1: "get_db_engine ?env ?b = (Inr (Some Engine), add_log INFO ConnOk ?b)"
    by (simp add: get_db_engine_def demo_env_def)
  have b2: "resolve_watermark ?env (Some Engine)
      (if Some Engine = None then add_log ERROR NoDbUsingBackup (add_log INFO ConnOk ?b)
       else add_log INFO ConnOk ?b) = (Inr 738944, add_log INFO ConnOk ?b)"
    by (simp add: watermark_eval)
  have b3: "738944 + 1 \<le> today ?env" and b3': "738944 + 1 \<le> today demo_env"
    by (simp_all add: demo_env_def)
  have b4: "\<forall>d \<in> set (date_range (738944 + 1) (today ?env)).
      catchable (fetch_body ?env d) \<and> empty_frame (fetched ?env d)"
    by (simp add: fetch_body_def fetched_def catchable_def empty_frame_def and_then_def
        demo_env_def)
  show ?thesis
    using nothing_fetched_nothing_saved [OF b1 b2 b3 b4] b3' by simp
qed

section \<open>The top level of the two runs\<close>



text \<open>
  The incremental loader: every exception of class \<^verbatim>\<open>Exception\<close> that leaves the body
  of \<^verbatim>\<open>main\<close> is caught by its handler, which logs one CRITICAL record; \<^verbatim>\<open>main\<close>
  then returns normally, so no exception of that class ever leaves it.
\<close>

lemma main_catches_exceptions:
  "(main_body env w0 = (Inl e, w) \<and> is_Exception e \<longrightarrow>
      main env w0 = (Inr (), add_log CRITICAL (Fatal (exn_str e)) w))
   \<and> (main_body env w0 = (Inr (), w) \<longrightarrow> main env w0 = (Inr (), w))
   \<and> (\<forall>x. fst (main env w0) = Inl x \<longrightarrow> \<not> is_Exception x)"
  by (auto simp: main_def split: prod.splits sum.splits if_splits)

text \<open>An instance: a failure of \<^verbatim>\<open>pd.concat\<close> in the incremental run is logged as fatal.\<close>

lemma fetch_body_mixed:
  "fetch_body mixed_env 738945
     = Inr [(''Date'', [CDate 738945]), (''CurrencyCode'', [CStr ''USD'']),
            (''CurrencyName'', [CStr ''US Dollar'']), (''Nominal'', [CInt 1]),
            (''Value'', [CFloat (181 / 2)]), (''Rate'', [CFloat (181 / 2)])]"
  "fetch_body mixed_env 738946
     = Inr [(''Date'', [CDate 738946]), (''CurrencyCode'', [CStr ''USD'']),
            (''CurrencyCode'', [CStr ''XXX'']),
            (''CurrencyName'', [CStr ''US Dollar'']), (''Nominal'', [CInt 1]),
            (''Value'', [CFloat (181 / 2)]), (''Rate'', [CFloat (181 / 2)])]"
  by (simp_all add: fetch_body_def mixed_env_def demo_env_def raise_for_status_def
      provider_frame_def frame_ops)

lemma main_body_mixed:
  "main_body mixed_env (fresh_world\<lparr>table := Some [usd_row 738944]\<rparr>)
     = (Inl (Raise InvalidIndexError ''Reindexing only valid with uniquely valued Index objects''),
        \<lparr>logged = [(INFO, ConnOk), (INFO, Loading 738945 738946),
                   (INFO, Received 738945), (INFO, Received 738946)],
          table = Some [usd_row 738944], csv_file = None\<rparr>)"
proof -
  have e: "db_probe mixed_env = None" "db_query_fault mixed_env = None"
    "today mixed_env = 738946"
    "concat_reindexed mixed_env fs
       = Inl (Raise InvalidIndexError ''Reindexing only valid with uniquely valued Index objects'')"
    for fs
    by (simp_all add: mixed_env_def demo_env_def)
  have r: "date_range 738945 738946 = [738945, 738946]"
    by (simp add: date_range_def upto_rec1)
  have d: "persisted_dates [usd_row 738944] = [738944]"
    by (simp add: persisted_dates_def List.map_filter_simps date_of_row_def usd_row_def)
  show ?thesis
    by (simp add: main_body_def get_db_engine_def resolve_watermark_def
        get_last_loaded_date_def max_date_query_def e d sql_max_def Let_def r
        get_cbr_rates_def fetch_body_mixed empty_frame_def nrows_def finish_run_def
        pd_concat_def add_log_def fresh_world_def)
qed

lemma main_catches_concat_error:
  "main mixed_env (fresh_world\<lparr>table := Some [usd_row 738944]\<rparr>)
     = (Inr (),
        \<lparr>logged = [(INFO, ConnOk), (INFO, Loading 738945 738946),
                   (INFO, Received 738945), (INFO, Received 738946),
                   (CRITICAL, Fatal ''Reindexing only valid with uniquely valued Index objects'')],
          table = Some [usd_row 738944], csv_file = None\<rparr>)"
  by (simp add: main_def main_body_mixed add_log_def)

text \<open>
  The historical loader has no handler in \<^verbatim>\<open>main\<close>: without an engine it ends with
  \<^verbatim>\<open>SystemExit(1)\<close>, and whatever its loop raises leaves \<^verbatim>\<open>main\<close> as it is.
\<close>

lemma main_hist_propagates:
  "(get_db_engine_hist env w0 = (Inr None, w1) \<longrightarrow>
        main_hist env w0 = (Inl (Raise SystemExit ''1''), w1))
   \<and> (get_db_engine_hist env w0 = (Inr (Some eng), w1)
        \<and> hist_loop env (Some eng) (date_range (ymd 2000 1 2) (ymd 2015 6 24))
             (add_log INFO (HistStart (ymd 2000 1 2) (ymd 2015 6 24)) w1) = (Inl e, w) \<longrightarrow>
        main_hist env w0 = (Inl e, w))"
  by (auto simp: main_hist_def Let_def)




section \<open>The fallback file\<close>

lemma save_data_fallback_ok:
  assumes "to_csv_fault env df = CsvOk"
  shows "save_data env df None w
     = (Inr True,
        add_log INFO SavedCsv
          (w\<lparr>csv_file := Some (existing (csv_file w) @ csv_lines (csv_file w = None) df)\<rparr>))"
  using assms by (simp add: save_data_def to_csv_def)

lemma save_data_fallback_not_opened:
  assumes "to_csv_fault env df = CsvOpenFails e"
  shows "csv_file (snd (save_data env df None w)) = csv_file w"
  using assms by (simp add: save_data_def to_csv_def)

lemma no_header_in_data: "filter is_header (csv_lines False df) = []"
  by (simp add: csv_lines_def is_header_def filter_empty_conv)

lemma no_header_in_all_data: "filter is_header (concat (map (csv_lines False) dfs)) = []"
  by (induction dfs) (simp_all add: no_header_in_data)

lemma save_all_existing_file:
  assumes "\<forall>df \<in> set dfs. to_csv_fault env df = CsvOk \<or> (\<exists>e. to_csv_fault env df = CsvOpenFails e)"
    and "csv_file w = Some old"
  shows "csv_file (save_all env dfs w)
           = Some (old @ concat (map (csv_lines False)
                                   (filter (\<lambda>df. to_csv_fault env df = CsvOk) dfs)))"
  using assms
proof (induction dfs arbitrary: w old)
  case Nil
  then show ?case by simp
next
  case (Cons df dfs)
  let ?w1 = "snd (save_data env df None w)"
  from Cons.prems have rest:
    "\<forall>df \<in> set dfs. to_csv_fault env df = CsvOk \<or> (\<exists>e. to_csv_fault env df = CsvOpenFails e)"
    by simp
  show ?case
  proof (cases "to_csv_fault env df = CsvOk")
    case True
    with Cons.prems have "csv_file ?w1 = Some (old @ csv_lines False df)"
      by (simp add: save_data_fallback_ok existing_def)
    from Cons.IH [OF rest this] True show ?thesis by simp
  next
    case False
    with Cons.prems obtain e where e: "to_csv_fault env df = CsvOpenFails e" by auto
    with Cons.prems have "csv_file ?w1 = Some old"
      by (simp add: save_data_fallback_not_opened)
    from Cons.IH [OF rest this] False show ?thesis by simp
  qed
qed

lemma save_all_new_file:
  assumes "\<forall>df \<in> set dfs. to_csv_fault env df = CsvOk \<or> (\<exists>e. to_csv_fault env df = CsvOpenFails e)"
    and "csv_file w = None"
  shows "csv_file (save_all env dfs w) =
           (case filter (\<lambda>df. to_csv_fault env df = CsvOk) dfs of
              [] \<Rightarrow> None
            | first # later \<Rightarrow>
                Some (Header (map fst first) # concat (map (csv_lines False) (first # later))))"
  using assms
proof (induction dfs arbitrary: w)
  case Nil
  then show ?case by simp
next
  case (Cons df dfs)
  let ?w1 = "snd (save_data env df None w)"
  from Cons.prems have rest:
    "\<forall>df \<in> set dfs. to_csv_fault env df = CsvOk \<or> (\<exists>e. to_csv_fault env df = CsvOpenFails e)"
    by simp
  show ?case
  proof (cases "to_csv_fault env df = CsvOk")
    case True
    with Cons.prems have "csv_file ?w1 = Some (Header (map fst df) # csv_lines False df)"
      by (simp add: save_data_fallback_ok existing_def csv_lines_def)
    from save_all_existing_file [OF rest this] True show ?thesis by simp
  next
    case False
    with Cons.prems obtain e where e: "to_csv_fault env df = CsvOpenFails e" by auto
    with Cons.prems have "csv_file ?w1 = None"
      by (simp add: save_data_fallback_not_opened)
    from Cons.IH [OF rest this] False show ?thesis by simp
  qed
qed

text \<open>A probe that fails with an exception of class Exception leaves no engine.\<close>

lemma get_db_engine_downgrades:
  assumes "db_probe env = Some e" and "is_Exception e"
  shows "fst (get_db_engine env w) = Inr None"
  using assms by (cases e) (auto simp: get_db_engine_def)

text \<open>
  Claim C7, as amended. Without an engine \<^verbatim>\<open>save_data\<close> appends the frame to the
  fallback file: the header line and the rows when the file does not exist yet, the rows
  only when it does. So after any sequence of fallback writes that starts without the file
  and in which no write fails after the file was opened, the file is the header of the
  first frame written followed by the rows of all frames written: the header occurs
  exactly once, in the first write that succeeds.
\<close>

theorem fallback_header_once:
  assumes "\<forall>df \<in> set dfs. to_csv_fault env df = CsvOk \<or> (\<exists>e. to_csv_fault env df = CsvOpenFails e)"
    and "csv_file w = None"
  shows "csv_file (save_all env dfs w) =
           (case filter (\<lambda>df. to_csv_fault env df = CsvOk) dfs of
              [] \<Rightarrow> None
            | first # later \<Rightarrow>
                Some (Header (map fst first) # concat (map (csv_lines False) (first # later))))
       \<and> length (filter is_header (existing (csv_file (save_all env dfs w))))
           = (if \<exists>df \<in> set dfs. to_csv_fault env df = CsvOk then 1 else 0)
       \<and> (\<forall>df w'. to_csv_fault env df = CsvOk \<longrightarrow>
            csv_file (snd (save_data env df None w'))
              = Some (case csv_file w' of
                        None \<Rightarrow> Header (map fst df) # csv_lines False df
                      | Some old \<Rightarrow> old @ csv_lines False df))"
proof (intro conjI)
  let ?written = "filter (\<lambda>df. to_csv_fault env df = CsvOk) dfs"
  show written: "csv_file (save_all env dfs w) =
           (case ?written of
              [] \<Rightarrow> None
            | first # later \<Rightarrow>
                Some (Header (map fst first) # concat (map (csv_lines False) (first # later))))"
    using assms by (rule save_all_new_file)
  show "length (filter is_header (existing (csv_file (save_all env dfs w))))
           = (if \<exists>df \<in> set dfs. to_csv_fault env df = CsvOk then 1 else 0)"
  proof (cases ?written)
    case Nil
    then have "\<not> (\<exists>df \<in> set dfs. to_csv_fault env df = CsvOk)"
      by (simp add: filter_empty_conv)
    with written Nil show ?thesis by (simp add: existing_def)
  next
    case (Cons first later)
    then have "first \<in> set ?written" by simp
    then have "\<exists>df \<in> set dfs. to_csv_fault env df = CsvOk" by auto
    moreover have "filter is_header
        (Header (map fst first) # concat (map (csv_lines False) (first # later)))
        = [Header (map fst first)]"
      using no_header_in_all_data [of "first # later"] by (simp add: is_header_def)
    ultimately show ?thesis
      using written Cons by (simp add: existing_def)
  qed
  show "\<forall>df w'. to_csv_fault env df = CsvOk \<longrightarrow>
            csv_file (snd (save_data env df None w'))
              = Some (case csv_file w' of
                        None \<Rightarrow> Header (map fst df) # csv_lines False df
                      | Some old \<Rightarrow> old @ csv_lines False df)"
    by (auto simp: save_data_fallback_ok existing_def csv_lines_def split: option.splits)
qed

lemma usd_frame_lines:
  "csv_lines False (usd_frame d)
     = [Data [CDate d, CStr ''USD'', CStr ''US Dollar'', CInt 1, CFloat (181 / 2),
              CFloat (181 / 2)]]"
  "map fst (usd_frame d)
     = [''Date'', ''CurrencyCode'', ''CurrencyName'', ''Nominal'', ''Value'', ''Rate'']"
  by (simp_all add: csv_lines_def rows_of_def nrows_def usd_frame_def)

lemma usd_frame_differ:
  "usd_frame 738945 \<noteq> usd_frame 738944" "usd_frame 738946 \<noteq> usd_frame 738944"
  "usd_frame 738946 \<noteq> usd_frame 738945"
  by (simp_all add: usd_frame_def)

theorem fallback_header_once_witness:
  "fst (get_db_engine locked_env fresh_world) = Inr None
   \<and> csv_file
       (save_all locked_env [usd_frame 738944, usd_frame 738945, usd_frame 738946] fresh_world)
   = Some [Header [''Date'', ''CurrencyCode'', ''CurrencyName'', ''Nominal'', ''Value'', ''Rate''],
           Data [CDate 738945, CStr ''USD'', CStr ''US Dollar'', CInt 1, CFloat (181 / 2), CFloat (181 / 2)],
           Data [CDate 738946, CStr ''USD'', CStr ''US Dollar'', CInt 1, CFloat (181 / 2), CFloat (181 / 2)]]"
proof -
  let ?dfs = "[usd_frame 738944, usd_frame 738945, usd_frame 738946]"
  have 0: "fst (get_db_engine locked_env fresh_world) = Inr None"
    by (simp add: get_db_engine_def locked_env_def down_env_def demo_env_def)
  have f: "to_csv_fault locked_env (usd_frame 738944)
        = CsvOpenFails (Raise OSError ''[Errno 13] Permission denied'')"
    "to_csv_fault locked_env (usd_frame 738945) = CsvOk"
    "to_csv_fault locked_env (usd_frame 738946) = CsvOk"
    by (simp_all add: locked_env_def usd_frame_differ)
  have 1: "\<forall>df \<in> set ?dfs. to_csv_fault locked_env df = CsvOk
      \<or> (\<exists>e. to_csv_fault locked_env df = CsvOpenFails e)"
    by (simp add: f)
  have 2: "csv_file fresh_world = None" by (simp add: fresh_world_def)
  from fallback_header_once [OF 1 2] 0 show ?thesis
    by (simp add: f usd_frame_lines)
qed

text \<open>
  The claim as stated fails on a sequence whose first write creates the file and then
  fails (the disk is full): \<^verbatim>\<open>save_data\<close> returns \<^verbatim>\<open>False\<close>, the file exists and is
  empty, and the next write, which succeeds, adds its rows without a header.
\<close>

theorem fallback_header_missing_counterexample:
  "save_data disk_full_env (usd_frame 738945) None fresh_world
     = (Inr False,
        add_log ERROR (SaveCsvError ''[Errno 28] No space left on device'')
          (fresh_world\<lparr>csv_file := Some []\<rparr>))
   \<and> csv_file (save_all disk_full_env [usd_frame 738945, usd_frame 738946] fresh_world)
     = Some [Data [CDate 738946, CStr ''USD'', CStr ''US Dollar'', CInt 1, CFloat (181 / 2),
                   CFloat (181 / 2)]]"
proof -
  have f: "to_csv_fault disk_full_env (usd_frame 738945)
        = CsvWriteFails (Raise OSError ''[Errno 28] No space left on device'') 0"
    "to_csv_fault disk_full_env (usd_frame 738946) = CsvOk"
    by (simp_all add: disk_full_env_def usd_frame_differ)
  have 1: "save_data disk_full_env (usd_frame 738945) None fresh_world
     = (Inr False,
        add_log ERROR (SaveCsvError ''[Errno 28] No space left on device'')
          (fresh_world\<lparr>csv_file := Some []\<rparr>))"
    by (simp add: save_data_def to_csv_def f fresh_world_def existing_def)
  have 2: "csv_file (snd (save_data disk_full_env (usd_frame 738946) None
        (add_log ERROR (SaveCsvError ''[Errno 28] No space left on device'')
          (fresh_world\<lparr>csv_file := Some []\<rparr>))))
      = Some ([] @ csv_lines False (usd_frame 738946))"
    by (simp add: save_data_fallback_ok [OF f(2)] existing_def)
  from 1 2 show ?thesis
    by (simp add: usd_frame_lines)
qed

section \<open>Progress of the watermark\<close>

lemma persisted_dates_mem:
  "D \<in> set (persisted_dates rs) \<longleftrightarrow> (\<exists>r \<in> set rs. date_of_row r = Some D)"
  by (induction rs) (auto simp: persisted_dates_def List.map_filter_simps split: option.splits)

lemma save_data_store_appends:
  assumes "save_data env df (Some eng) w = (Inr True, w_a)"
  shows "table w_a = Some (existing (table w) @ rows_of df)"
  using assms
  by (auto simp: save_data_def to_sql_def split: option.splits sum.splits if_splits)

lemma watermark_from_store:
  assumes "table w_b = Some rs" and "r \<in> set rs" and "date_of_row r = Some D"
    and "db_query_fault env_b = None"
  shows "\<exists>m. get_last_loaded_date env_b (Some eng_b) w_b = (Inr m, w_b) \<and> D \<le> m"
proof -
  from assms(2,3) have D: "D \<in> set (persisted_dates rs)"
    by (auto simp: persisted_dates_mem)
  then have "persisted_dates rs \<noteq> []" by auto
  then obtain m where m: "sql_max (persisted_dates rs) = Some m"
      "\<forall>d \<in> set (persisted_dates rs). d \<le> m"
    using sql_max_is_maximum by blast
  with assms(1,4) have "get_last_loaded_date env_b (Some eng_b) w_b = (Inr m, w_b)"
    by (simp add: get_last_loaded_date_def max_date_query_def)
  with m(2) D show ?thesis by blast
qed

lemma watermark_on_later_day:
  assumes "table w_b = Some rs" and "r \<in> set rs" and "date_of_row r = Some D"
    and "D < today env_b" and "catchable (max_date_query env_b w_b)"
  shows "\<exists>m w_c. resolve_watermark env_b eng_b w_b = (Inr m, w_c) \<and> D \<le> m"
proof (cases eng_b)
  case None
  with assms(4) show ?thesis
    by (simp add: resolve_watermark_def)
next
  case (Some e)
  show ?thesis
  proof (cases "max_date_query env_b w_b")
    case (Inl x)
    with assms(5) have "is_Exception x" by (simp add: catchable_def)
    with Inl Some assms(4) show ?thesis
      by (simp add: resolve_watermark_def get_last_loaded_date_def)
  next
    case (Inr q)
    then have f: "db_query_fault env_b = None"
      by (auto simp: max_date_query_def split: option.splits)
    from watermark_from_store [OF assms(1-3) f, of e] Some show ?thesis
      by (auto simp: resolve_watermark_def)
  qed
qed

text \<open>
  Claim C9, as amended. When \<^verbatim>\<open>save_data\<close> has written to the table a frame with a row
  dated \<open>D\<close>, and the table only grows afterwards, a later run that reads its watermark
  from the store (there is an engine and the aggregate query does not fail) resolves a
  watermark that is at least \<open>D\<close>. A later run that cannot read the store takes yesterday
  as its watermark, which is at least \<open>D\<close> when that run takes place on a day after
  \<open>D\<close>.
\<close>

theorem watermark_monotone:
  assumes "save_data env df (Some eng) w = (Inr True, w_a)"
    and "r \<in> set (rows_of df)" and "date_of_row r = Some D"
    and "table w_b = Some (existing (table w_a) @ later_rows)"
  shows "(db_query_fault env_b = None \<longrightarrow>
            (\<exists>m. resolve_watermark env_b (Some eng_b) w_b = (Inr m, w_b) \<and> D \<le> m))
       \<and> (D < today env_b \<and> catchable (max_date_query env_b w_b) \<longrightarrow>
            (\<exists>m w_c. resolve_watermark env_b any_engine w_b = (Inr m, w_c) \<and> D \<le> m))"
proof -
  from assms(1) have "table w_a = Some (existing (table w) @ rows_of df)"
    by (rule save_data_store_appends)
  with assms(2) have "r \<in> set (existing (table w_a) @ later_rows)"
    by (simp add: existing_def)
  with assms(3,4) show ?thesis
    using watermark_from_store [of w_b _ r D env_b eng_b]
      watermark_on_later_day [of w_b _ r D env_b any_engine]
    by (auto simp: resolve_watermark_def)
qed

lemma fetched_demo':
  "fetch_body demo_env d = Inr (usd_frame d)"
  by (simp add: fetch_body_def demo_env_def raise_for_status_def provider_frame_def
      frame_ops usd_frame_def)

lemma first_run:
  "main demo_env (fresh_world\<lparr>table := Some [usd_row 738945]\<rparr>) = (Inr (), after_first_run)"
proof -
  have e: "db_probe demo_env = None" "db_query_fault demo_env = None"
    "today demo_env = 738946" "to_sql_fault demo_env df = None" for df
    by (simp_all add: demo_env_def)
  have r: "date_range 738946 738946 = [738946]"
    by (simp add: date_range_def upto_rec1)
  have d: "persisted_dates [usd_row 738945] = [738945]"
    by (simp add: persisted_dates_def List.map_filter_simps date_of_row_def usd_row_def)
  show ?thesis
    by (simp add: main_def main_body_def get_db_engine_def resolve_watermark_def
        get_last_loaded_date_def max_date_query_def e d sql_max_def Let_def r
        get_cbr_rates_def fetched_demo' usd_frame_def empty_frame_def nrows_def finish_run_def
        pd_concat_def save_data_def to_sql_def rows_of_def existing_def
        add_log_def fresh_world_def after_first_run_def)
qed

text \<open>
  The claim as stated fails on a second run of the same day that finds the database
  unreachable: the first run has persisted 2024-03-01 (ordinal 738946), and the second
  resolves the watermark 2024-02-29.
\<close>

theorem watermark_regress_counterexample:
  "main demo_env (fresh_world\<lparr>table := Some [usd_row 738945]\<rparr>) = (Inr (), after_first_run)
   \<and> sql_max (persisted_dates (existing (table after_first_run))) = Some 738946
   \<and> get_db_engine down_env after_first_run
       = (Inr None, add_log ERROR (ConnUnavailable ''connection refused'') after_first_run)
   \<and> fst (resolve_watermark down_env None
        (add_log ERROR NoDbUsingBackup
           (add_log ERROR (ConnUnavailable ''connection refused'') after_first_run)))
       = Inr 738945"
proof -
  have "sql_max (persisted_dates (existing (table after_first_run))) = Some 738946"
    by (simp add: after_first_run_def existing_def persisted_dates_def List.map_filter_simps
        date_of_row_def usd_row_def sql_max_def)
  moreover have "get_db_engine down_env after_first_run
       = (Inr None, add_log ERROR (ConnUnavailable ''connection refused'') after_first_run)"
    by (simp add: get_db_engine_def down_env_def demo_env_def)
  moreover have "fst (resolve_watermark down_env None
        (add_log ERROR NoDbUsingBackup
           (add_log ERROR (ConnUnavailable ''connection refused'') after_first_run)))
       = Inr 738945"
    by (simp add: resolve_watermark_def down_env_def demo_env_def)
  ultimately show ?thesis
    by (simp add: first_run)
qed


theorem watermark_monotone_witness:
  "(\<exists>m. resolve_watermark demo_env (Some Engine)
           (snd (save_data demo_env (usd_frame 738946) (Some Engine)
                   (fresh_world\<lparr>table := Some [usd_row 738945]\<rparr>)))
         = (Inr m, snd (save_data demo_env (usd_frame 738946) (Some Engine)
                          (fresh_world\<lparr>table := Some [usd_row 738945]\<rparr>)))
        \<and> 738946 \<le> m)
   \<and> (\<exists>m w_c. resolve_watermark (down_env\<lparr>today := 738947\<rparr>) None
           (snd (save_data demo_env (usd_frame 738946) (Some Engine)
                   (fresh_world\<lparr>table := Some [usd_row 738945]\<rparr>)))
         = (Inr m, w_c) \<and> 738946 \<le> m)"
proof -
  let ?start = "fresh_world\<lparr>table := Some [usd_row 738945]\<rparr>"
  let ?saved = "snd (save_data demo_env (usd_frame 738946) (Some Engine) ?start)"
  let ?row = "[(''Date'', CDate 738946), (''CurrencyCode'', CStr ''USD''),
      (''CurrencyName'', CStr ''US Dollar''), (''Nominal'', CInt 1),
      (''Value'', CFloat (181 / 2)), (''Rate'', CFloat (181 / 2))] :: rat row"
  have 1: "save_data demo_env (usd_frame 738946) (Some Engine) ?start = (Inr True, ?saved)"
    by (simp add: save_data_def to_sql_def demo_env_def)
  have 2: "?row \<in> set (rows_of (usd_frame 738946))"
    by (simp add: rows_of_def usd_frame_def nrows_def)
  have 3: "date_of_row ?row = Some 738946"
    by (simp add: date_of_row_def)
  have 4: "table ?saved = Some (existing (table ?saved) @ [])"
    by (simp add: save_data_def to_sql_def demo_env_def existing_def)
  have 5: "db_query_fault demo_env = None"
    by (simp add: demo_env_def)
  have 6: "738946 < today (down_env\<lparr>today := 738947\<rparr>)
      \<and> catchable (max_date_query (down_env\<lparr>today := 738947\<rparr>) ?saved)"
    by (simp add: down_env_def demo_env_def catchable_def max_date_query_def save_data_def
        to_sql_def)
  from watermark_monotone [OF 1 2 3 4, where env_b = demo_env and eng_b = Engine] 5
  have "\<exists>m. resolve_watermark demo_env (Some Engine) ?saved = (Inr m, ?saved) \<and> 738946 \<le> m"
    by blast
  moreover from watermark_monotone [OF 1 2 3 4, where env_b = "down_env\<lparr>today := 738947\<rparr>"
      and any_engine = None] 6
  have "\<exists>m w_c. resolve_watermark (down_env\<lparr>today := 738947\<rparr>) None ?saved = (Inr m, w_c)
      \<and> 738946 \<le> m"
    by blast
  ultimately show ?thesis by blast
qed

section \<open>Failure isolation in the loops\<close>

lemma rectangular_iff: "rectangular df \<longleftrightarrow> (\<forall>p \<in> set df. length (snd p) = nrows df)"
  by (auto simp: rectangular_def list_all_iff)

lemma labels_append_frame:
  "length a = length b \<Longrightarrow> map fst (append_frame a b) = map fst a"
  unfolding append_frame_def
  by (induction a b rule: list_induct2) (simp_all add: case_prod_unfold)

lemma nrows_append_frame:
  assumes "length a = length b"
  shows "nrows (append_frame a b) = nrows a + nrows b"
  using assms by (cases a; cases b) (auto simp: append_frame_def nrows_def)

lemma row_append_left:
  assumes "length a = length b" and "\<forall>p \<in> set a. i < length (snd p)"
  shows "map (\<lambda>(l, cs). (l, cs ! i)) (append_frame a b) = map (\<lambda>(l, cs). (l, cs ! i)) a"
  using assms unfolding append_frame_def
  by (induction a b rule: list_induct2) (auto simp: nth_append)

lemma row_append_right:
  assumes "map fst a = map fst b" and "\<forall>p \<in> set a. length (snd p) = n"
  shows "map (\<lambda>(l, cs). (l, cs ! (n + j))) (append_frame a b) = map (\<lambda>(l, cs). (l, cs ! j)) b"
proof -
  from assms(1) have "length a = length b"
    by (metis length_map)
  then show ?thesis
    using assms unfolding append_frame_def
    by (induction a b rule: list_induct2) (auto simp: nth_append)
qed

lemma rows_of_append_frame:
  assumes labels: "map fst a = map fst b" and ra: "rectangular a" and rb: "rectangular b"
  shows "rows_of (append_frame a b) = rows_of a @ rows_of b"
proof -
  from labels have len: "length a = length b"
    by (metis length_map)
  let ?n = "nrows a" and ?m = "nrows b"
  let ?row = "\<lambda>i. map (\<lambda>(l, cs). (l, cs ! i)) (append_frame a b)"
  from ra have la: "\<forall>p \<in> set a. length (snd p) = ?n"
    by (simp add: rectangular_iff)
  have "rows_of (append_frame a b) = map ?row [0..<?n + ?m]"
    by (simp add: rows_of_def nrows_append_frame [OF len])
  also have "\<dots> = map ?row [0..<?n] @ map ?row [?n..<?n + ?m]"
    using upt_add_eq_append [of 0 ?n ?m] by (simp only: map_append [symmetric])
  also have "map ?row [0..<?n] = rows_of a"
    unfolding rows_of_def
  proof (rule map_cong [OF refl])
    fix i assume "i \<in> set [0..<?n]"
    with la have "\<forall>p \<in> set a. i < length (snd p)" by simp
    with len show "?row i = map (\<lambda>(l, cs). (l, cs ! i)) a"
      by (rule row_append_left)
  qed
  also have "map ?row [?n..<?n + ?m] = rows_of b"
  proof -
    have "map ?row [?n..<?n + ?m] = map (\<lambda>j. ?row (?n + j)) [0..<?m]"
      by (rule nth_equalityI) simp_all
    also have "\<dots> = map (\<lambda>j. map (\<lambda>(l, cs). (l, cs ! j)) b) [0..<?m]"
      using row_append_right [OF labels la] by simp
    finally show ?thesis by (simp add: rows_of_def)
  qed
  finally show ?thesis .
qed

lemma rectangular_append_frame:
  assumes labels: "map fst a = map fst b" and ra: "rectangular a" and rb: "rectangular b"
  shows "rectangular (append_frame a b)"
proof -
  from labels have len: "length a = length b"
    by (metis length_map)
  have "\<forall>p \<in> set (append_frame a b). length (snd p) = nrows a + nrows b"
    using len ra rb unfolding append_frame_def rectangular_iff
  proof (induction a b rule: list_induct2)
    case Nil
    then show ?case by simp
  next
    case (Cons x xs y ys)
    have "\<forall>p \<in> set (map (\<lambda>((l, cs), k, ds). (l, cs @ ds)) (zip xs ys)).
        length (snd p) = nrows (x # xs) + nrows (y # ys)"
    proof
      fix p assume "p \<in> set (map (\<lambda>((l, cs), k, ds). (l, cs @ ds)) (zip xs ys))"
      then obtain q r where qr: "(q, r) \<in> set (zip xs ys)" "p = (fst q, snd q @ snd r)"
        by (auto simp: case_prod_unfold)
      then have "q \<in> set xs" "r \<in> set ys"
        by (auto dest: set_zip_leftD set_zip_rightD)
      with Cons.prems qr(2) show "length (snd p) = nrows (x # xs) + nrows (y # ys)"
        by simp
    qed
    moreover from Cons.prems have "length (snd x) = nrows (x # xs)"
      "length (snd y) = nrows (y # ys)" by simp_all
    ultimately show ?case
      by (simp add: case_prod_unfold)
  qed
  then show ?thesis
    by (simp add: rectangular_iff nrows_append_frame [OF len])
qed

lemma rows_of_foldl_append:
  assumes "\<forall>g \<in> set rest. map fst g = map fst f \<and> rectangular g" and "rectangular f"
  shows "rows_of (foldl append_frame f rest) = rows_of f @ concat (map rows_of rest)"
  using assms
proof (induction rest arbitrary: f)
  case Nil
  then show ?case by simp
next
  case (Cons g rest)
  then have l: "map fst f = map fst g" and rg: "rectangular g" by simp_all
  from l have len: "length f = length g" by (metis length_map)
  have "\<forall>h \<in> set rest. map fst h = map fst (append_frame f g) \<and> rectangular h"
    using Cons.prems(1) by (simp add: labels_append_frame [OF len])
  moreover have "rectangular (append_frame f g)"
    using l Cons.prems(2) rg by (rule rectangular_append_frame)
  ultimately have "rows_of (foldl append_frame (append_frame f g) rest)
      = rows_of (append_frame f g) @ concat (map rows_of rest)"
    by (rule Cons.IH)
  then show ?case
    by (simp add: rows_of_append_frame [OF l Cons.prems(2) rg])
qed


lemma pd_concat_rows:
  assumes "fs \<noteq> []" and "\<forall>f \<in> set fs. map fst f = ls \<and> rectangular f"
  shows "\<exists>final. pd_concat env fs = Inr final \<and> rows_of final = concat (map rows_of fs)"
proof -
  from assms(1) obtain f rest where fs: "fs = f # rest" by (cases fs) auto
  with assms(2) have same: "\<forall>g \<in> set rest. map fst g = map fst f \<and> rectangular g"
    and rf: "rectangular f" by simp_all
  from same have "pd_concat env fs = Inr (foldl append_frame f rest)"
    by (simp add: pd_concat_def fs list_all_iff)
  moreover have "rows_of (foldl append_frame f rest) = concat (map rows_of fs)"
    using rows_of_foldl_append [OF same rf] fs by simp
  ultimately show ?thesis by blast
qed

lemma finish_run_persists:
  assumes "\<forall>f \<in> set all_data. map fst f = ls \<and> rectangular f"
    and "\<forall>df. to_sql_fault env df = None"
  shows "\<exists>w'. finish_run env (Some eng) (Inr all_data, w) = (Inr (), w')
          \<and> existing (table w') = existing (table w) @ concat (map rows_of all_data)"
proof (cases "all_data = []")
  case True
  then show ?thesis by (simp add: finish_run_def)
next
  case False
  with assms(1) obtain final where final: "pd_concat env all_data = Inr final"
      "rows_of final = concat (map rows_of all_data)"
    using pd_concat_rows by blast
  with False assms(2) show ?thesis
    by (simp add: finish_run_def save_data_def to_sql_def existing_def)
qed

lemma get_cbr_rates_hist_fetched:
  assumes "catchable (fetch_body env d)"
  shows "\<exists>w'. get_cbr_rates_hist env d w = (Inr (fetched env d), w') \<and> table w' = table w"
  using assms
  by (auto simp: get_cbr_rates_hist_def fetched_def catchable_def split: sum.splits)

lemma save_data_hist_table:
  assumes "\<forall>e. to_sql_fault env df = Some e \<longrightarrow> is_Exception e"
  shows "\<exists>ok w'. save_data_hist env df (Some eng) w = (Inr ok, w')
          \<and> existing (table w')
              = existing (table w) @ (if to_sql_fault env df = None then rows_of df else [])"
proof (cases "to_sql_fault env df")
  case None
  let ?w1 = "w\<lparr>table := Some (existing (table w) @ rows_of df)\<rparr>"
  have sql: "to_sql env df w = Inr ?w1"
    using None by (simp add: to_sql_def)
  have t: "existing (table ?w1) = existing (table w) @ rows_of df"
    by (simp add: existing_def)
  show ?thesis
  proof (cases "and_then (get_col ''Date'' df) iloc0")
    case (Inl x)
    then have "is_Exception x"
      by (auto simp: and_then_def get_col_def iloc0_def split: option.splits list.splits)
    with Inl sql have "save_data_hist env df (Some eng) w
        = (Inr False, add_log ERROR (SaveError (exn_str x)) ?w1)"
      by (simp add: save_data_hist_def)
    with None t show ?thesis by auto
  next
    case (Inr c)
    with sql have "save_data_hist env df (Some eng) w
        = (Inr True, add_log INFO (SavedFor (nrows df) c) ?w1)"
      by (simp add: save_data_hist_def)
    with None t show ?thesis by auto
  qed
next
  case (Some e)
  with assms have "is_Exception e" by simp
  with Some show ?thesis
    by (auto simp: save_data_hist_def to_sql_def)
qed

lemma hist_loop_persists:
  assumes "\<forall>d \<in> set ds. catchable (fetch_body env d) \<and> sleep_fault env d = None"
    and "\<forall>df e. to_sql_fault env df = Some e \<longrightarrow> is_Exception e"
  shows "\<exists>w'. hist_loop env (Some eng) ds w = (Inr (), w')
          \<and> existing (table w')
              = existing (table w)
                @ concat (map rows_of
                    (filter (\<lambda>df. \<not> empty_frame df \<and> to_sql_fault env df = None)
                       (map (fetched env) ds)))"
  using assms(1)
proof (induction ds arbitrary: w)
  case Nil
  then show ?case by simp
next
  case (Cons d ds)
  then have c: "catchable (fetch_body env d)" and s: "sleep_fault env d = None"
    and rest: "\<forall>d \<in> set ds. catchable (fetch_body env d) \<and> sleep_fault env d = None"
    by simp_all
  from c obtain w1 where w1: "get_cbr_rates_hist env d w = (Inr (fetched env d), w1)"
      "table w1 = table w"
    using get_cbr_rates_hist_fetched by blast
  let ?df = "fetched env d"
  show ?case
  proof (cases "empty_frame ?df")
    case True
    let ?w3 = "add_log WARNING (NoDataFor d) w1"
    from Cons.IH [OF rest, of ?w3] obtain w' where
      "hist_loop env (Some eng) ds ?w3 = (Inr (), w')"
      "existing (table w') = existing (table ?w3)
         @ concat (map rows_of
             (filter (\<lambda>df. \<not> empty_frame df \<and> to_sql_fault env df = None)
                (map (fetched env) ds)))"
      by blast
    with w1 True s show ?thesis by simp
  next
    case False
    from assms(2) have "\<forall>e. to_sql_fault env ?df = Some e \<longrightarrow> is_Exception e" by blast
    then obtain ok w2 where w2: "save_data_hist env ?df (Some eng) w1 = (Inr ok, w2)"
      "existing (table w2)
         = existing (table w1) @ (if to_sql_fault env ?df = None then rows_of ?df else [])"
      using save_data_hist_table by blast
    let ?w3 = "if \<not> ok then add_log WARNING (SkipSave d) w2 else w2"
    from Cons.IH [OF rest, of ?w3] obtain w' where
      "hist_loop env (Some eng) ds ?w3 = (Inr (), w')"
      "existing (table w') = existing (table ?w3)
         @ concat (map rows_of
             (filter (\<lambda>df. \<not> empty_frame df \<and> to_sql_fault env df = None)
                (map (fetched env) ds)))"
      by blast
    with w1 w2 False s show ?thesis by simp
  qed
qed

text \<open>
  Claim C6. A failed or empty fetch for one date does not stop the loop over the planned
  range. In the incremental loader the loop hands on exactly the non-empty frames of all
  dates, in date order, and when the frames are well formed and the write succeeds the
  table gains the rows of every one of them. In the historical loader the loop runs to
  its end and the table gains the rows of every date whose frame is not empty and whose
  own write did not fail. The date of a failed fetch is merely absent.
\<close>

theorem failure_isolation:
  assumes "\<forall>d \<in> set ds. catchable (fetch_body env d)"
  shows "(\<exists>w'. fetch_loop env ds [] w
            = (Inr (filter (\<lambda>df. \<not> empty_frame df) (map (fetched env) ds)), w'))
       \<and> ((\<forall>d \<in> set ds. \<not> empty_frame (fetched env d) \<longrightarrow>
               map fst (fetched env d) = output_columns \<and> rectangular (fetched env d))
            \<and> (\<forall>df. to_sql_fault env df = None) \<longrightarrow>
          (\<exists>w'. finish_run env (Some eng) (fetch_loop env ds [] w) = (Inr (), w')
              \<and> existing (table w')
                  = existing (table w)
                    @ concat (map rows_of
                        (filter (\<lambda>df. \<not> empty_frame df) (map (fetched env) ds)))))
       \<and> ((\<forall>d \<in> set ds. sleep_fault env d = None)
            \<and> (\<forall>df e. to_sql_fault env df = Some e \<longrightarrow> is_Exception e) \<longrightarrow>
          (\<exists>w'. hist_loop env (Some eng) ds w = (Inr (), w')
              \<and> existing (table w')
                  = existing (table w)
                    @ concat (map rows_of
                        (filter (\<lambda>df. \<not> empty_frame df \<and> to_sql_fault env df = None)
                           (map (fetched env) ds)))))"
proof (intro conjI impI)
  let ?all = "filter (\<lambda>df. \<not> empty_frame df) (map (fetched env) ds)"
  from fetch_loop_collects [OF assms, of "[]" w]
  obtain w5 where w5: "fetch_loop env ds [] w = (Inr ?all, w5)" "same_store w w5"
    by auto
  then show "\<exists>w'. fetch_loop env ds [] w = (Inr ?all, w')"
    by blast
  assume wf: "(\<forall>d \<in> set ds. \<not> empty_frame (fetched env d) \<longrightarrow>
               map fst (fetched env d) = output_columns \<and> rectangular (fetched env d))
            \<and> (\<forall>df. to_sql_fault env df = None)"
  then have "\<forall>f \<in> set ?all. map fst f = output_columns \<and> rectangular f"
    by auto
  with wf obtain w' where "finish_run env (Some eng) (Inr ?all, w5) = (Inr (), w')"
    "existing (table w') = existing (table w5) @ concat (map rows_of ?all)"
    using finish_run_persists by blast
  with w5 show "\<exists>w'. finish_run env (Some eng) (fetch_loop env ds [] w) = (Inr (), w')
              \<and> existing (table w') = existing (table w) @ concat (map rows_of ?all)"
    by (auto simp: same_store_def)
next
  assume "(\<forall>d \<in> set ds. sleep_fault env d = None)
            \<and> (\<forall>df e. to_sql_fault env df = Some e \<longrightarrow> is_Exception e)"
  with assms show "\<exists>w'. hist_loop env (Some eng) ds w = (Inr (), w')
              \<and> existing (table w')
                  = existing (table w)
                    @ concat (map rows_of
                        (filter (\<lambda>df. \<not> empty_frame df \<and> to_sql_fault env df = None)
                           (map (fetched env) ds)))"
    using hist_loop_persists [of ds env eng w] by blast
qed


lemma fetch_body_gap:
  "fetch_body gap_env 738944 = Inr (usd_frame 738944)"
  "fetch_body gap_env 738945 = Inl (Raise RequestException ''timed out'')"
  "fetch_body gap_env 738946 = Inr (usd_frame 738946)"
  by (simp_all add: fetch_body_def gap_env_def demo_env_def raise_for_status_def
      provider_frame_def frame_ops usd_frame_def)

theorem failure_isolation_witness:
  "(\<exists>w'. fetch_loop gap_env [738944, 738945, 738946] [] fresh_world
           = (Inr [usd_frame 738944, usd_frame 738946], w'))
   \<and> (\<exists>w'. finish_run gap_env (Some Engine)
              (fetch_loop gap_env [738944, 738945, 738946] [] fresh_world) = (Inr (), w')
          \<and> existing (table w') = rows_of (usd_frame 738944) @ rows_of (usd_frame 738946))
   \<and> (\<exists>w'. hist_loop gap_env (Some Engine) [738944, 738945, 738946] fresh_world = (Inr (), w')
          \<and> existing (table w') = rows_of (usd_frame 738944) @ rows_of (usd_frame 738946))"
proof -
  let ?ds = "[738944, 738945, 738946] :: date list"
  have f: "fetched gap_env 738944 = usd_frame 738944" "fetched gap_env 738945 = []"
    "fetched gap_env 738946 = usd_frame 738946"
    by (simp_all add: fetched_def fetch_body_gap)
  have ne: "\<not> empty_frame (usd_frame d)" and lab: "map fst (usd_frame d) = output_columns"
    and rect: "rectangular (usd_frame d)" for d
    by (simp_all add: usd_frame_def empty_frame_def nrows_def output_columns_def
        rectangular_def)
  have e: "empty_frame ([] :: rat frame)"
    by (simp add: empty_frame_def)
  have env: "to_sql_fault gap_env df = None" "sleep_fault gap_env d = None" for df d
    by (simp_all add: gap_env_def demo_env_def)
  have h0: "\<forall>d \<in> set ?ds. catchable (fetch_body gap_env d)"
    by (simp add: fetch_body_gap catchable_def)
  have h1: "(\<forall>d \<in> set ?ds. \<not> empty_frame (fetched gap_env d) \<longrightarrow>
               map fst (fetched gap_env d) = output_columns \<and> rectangular (fetched gap_env d))
            \<and> (\<forall>df. to_sql_fault gap_env df = None)"
    by (simp add: f lab rect env e)
  have h2: "(\<forall>d \<in> set ?ds. sleep_fault gap_env d = None)
            \<and> (\<forall>df e. to_sql_fault gap_env df = Some e \<longrightarrow> is_Exception e)"
    by (simp add: env)
  have t: "existing (table fresh_world) = []"
    by (simp add: fresh_world_def existing_def)
  from failure_isolation [OF h0, of fresh_world Engine] h1 h2 show ?thesis
    by (simp add: f ne e env t)
qed

end
